theory Spec2Isabelle
  imports Complex_Main "HOL-Library.Word"
begin

section \<open>Data model of GarageClimate.ino\<close>

text \<open>
  The sketch runs on an AVR Arduino: \<open>byte\<close> is an unsigned 8-bit integer and
  \<open>long\<close> a signed 32-bit integer. \<open>millis()\<close> returns an unsigned 32-bit count that the
  sketch stores in a \<open>long\<close>; the value is kept here as a 32-bit word, read as two's
  complement by the signed comparison \<open><s\<close>, and subtracted with wrap-around.
\<close>

type_synonym byte = "8 word"
type_synonym long = "32 word"

definition KEY_TIMEOUT :: long where
  "KEY_TIMEOUT = 30000"

definition SENSORS_READ_PERIOD :: long where
  "SENSORS_READ_PERIOD = 5000"

definition RELAY_TEMP_PIN :: int where
  "RELAY_TEMP_PIN = 3"

definition RELAY_HUMID_PIN :: int where
  "RELAY_HUMID_PIN = 2"

datatype Key = right | up | down | left | select | none

datatype Mode = idle | setLowTemp | setHighTemp | setLowHumid | setHighHumid

record Config =
  lowTemp :: byte
  highTemp :: byte
  lowHumid :: byte
  highHumid :: byte

text \<open>
  A \<open>float\<close> reading is a finite number, an infinity or NaN (the DHT library returns NaN
  when a read fails). The sketch only compares readings, with each other and with
  integers that a float represents exactly, so a finite value is kept as the real number
  it denotes. Every comparison with NaN is false.
\<close>

datatype float = Finite real | PosInf | NegInf | NaN

fun float_less :: "float \<Rightarrow> float \<Rightarrow> bool" where
  "float_less (Finite a) (Finite b) = (a < b)"
| "float_less (Finite a) PosInf = True"
| "float_less (Finite a) NegInf = False"
| "float_less (Finite a) NaN = False"
| "float_less PosInf y = False"
| "float_less NegInf (Finite b) = True"
| "float_less NegInf PosInf = True"
| "float_less NegInf NegInf = False"
| "float_less NegInf NaN = False"
| "float_less NaN y = False"

fun float_le :: "float \<Rightarrow> float \<Rightarrow> bool" where
  "float_le (Finite a) (Finite b) = (a \<le> b)"
| "float_le (Finite a) PosInf = True"
| "float_le (Finite a) NegInf = False"
| "float_le (Finite a) NaN = False"
| "float_le PosInf PosInf = True"
| "float_le PosInf y = False"
| "float_le NegInf NaN = False"
| "float_le NegInf y = True"
| "float_le NaN y = False"

text \<open>The conversion of an \<open>int\<close> operand, and of a \<open>byte\<close> promoted to \<open>int\<close>, to \<open>float\<close>.\<close>

definition float_of_int :: "int \<Rightarrow> float" where
  "float_of_int i = Finite (of_int i)"

definition float_of_byte :: "byte \<Rightarrow> float" where
  "float_of_byte b = float_of_int (uint b)"

record State =
  mode :: Mode
  temp :: float
  humid :: float
  outdoorTemp :: float
  tempOn :: bool
  humidOn :: bool

datatype level = LOW | HIGH

text \<open>A \<open>byte *\<close> that is not NULL points to one of the four fields of \<open>config\<close>.\<close>

datatype byte_ref = Ref_lowTemp | Ref_highTemp | Ref_lowHumid | Ref_highHumid

text \<open>
  The calls the sketch makes to its hardware and libraries, in the order it makes them:
  the analog read behind \<open>readKey\<close>, the two screen routines, the sensor reads, the
  (stubbed) \<open>writeConfig\<close> and the relay writes.
\<close>

datatype event =
    EvAnalogRead
  | EvDisplayIdle
  | EvDisplaySetup byte_ref
  | EvReadTemperature
  | EvReadHumidity
  | EvRequestTemperatures
  | EvGetTempC
  | EvWriteConfig
  | EvDigitalWrite int level

text \<open>
  The globals \<open>state\<close> and \<open>config\<close>, the function-local statics \<open>lastKey\<close>,
  \<open>lastTime\<close> (of \<open>processKeys\<close>) and \<open>lastReadTime\<close> (of \<open>processSensors\<close>), and the
  calls made so far.
\<close>

record Sys =
  state :: State
  config :: Config
  lastKey :: Key
  lastTime :: long
  lastReadTime :: long
  trace :: "event list"

text \<open>What one call of \<open>processKeys\<close> reads: the analog pin and \<open>millis()\<close>, twice.\<close>

record key_in =
  analogKey :: int
  millis_outer :: long
  millis_inner :: long

text \<open>What one call of \<open>processSensors\<close> reads, in the order of the reads.\<close>

record sensors_in =
  millis_now :: long
  readTemperature :: float
  iu_after_temp :: key_in
  readHumidity :: float
  iu_after_humid :: key_in
  iu_after_request :: key_in
  getTempC :: float
  iu_after_outdoor :: key_in

text \<open>What one iteration of \<open>loop\<close> reads.\<close>

record loop_in =
  keys_in :: key_in
  sens_in :: sensors_in

section \<open>The functions of the sketch\<close>

definition emit :: "event \<Rightarrow> Sys \<Rightarrow> Sys" where
  "emit e s = s\<lparr>trace := trace s @ [e]\<rparr>"

definition readKey :: "int \<Rightarrow> Key" where
  "readKey analog =
     (if analog < 60 then right
      else if analog < 200 then up
      else if analog < 400 then down
      else if analog < 600 then left
      else if analog < 800 then select
      else none)"

definition deref :: "byte_ref \<Rightarrow> Sys \<Rightarrow> byte" where
  "deref p s =
     (case p of
        Ref_lowTemp \<Rightarrow> lowTemp (config s)
      | Ref_highTemp \<Rightarrow> highTemp (config s)
      | Ref_lowHumid \<Rightarrow> lowHumid (config s)
      | Ref_highHumid \<Rightarrow> highHumid (config s))"

definition assign :: "byte_ref \<Rightarrow> byte \<Rightarrow> Sys \<Rightarrow> Sys" where
  "assign p v s =
     (case p of
        Ref_lowTemp \<Rightarrow> s\<lparr>config := (config s)\<lparr>lowTemp := v\<rparr>\<rparr>
      | Ref_highTemp \<Rightarrow> s\<lparr>config := (config s)\<lparr>highTemp := v\<rparr>\<rparr>
      | Ref_lowHumid \<Rightarrow> s\<lparr>config := (config s)\<lparr>lowHumid := v\<rparr>\<rparr>
      | Ref_highHumid \<Rightarrow> s\<lparr>config := (config s)\<lparr>highHumid := v\<rparr>\<rparr>)"

definition writeConfig :: "Sys \<Rightarrow> Sys" where
  "writeConfig s = emit EvWriteConfig s"

definition toggleModeToIdle :: "Sys \<Rightarrow> Sys" where
  "toggleModeToIdle s = writeConfig (s\<lparr>state := (state s)\<lparr>mode := idle\<rparr>\<rparr>)"

text \<open>The enumerators of \<open>Mode\<close> are 0 to 4; \<open>Mode(state.mode + 1)\<close> casts back.\<close>

fun int_of_Mode :: "Mode \<Rightarrow> int" where
  "int_of_Mode idle = 0"
| "int_of_Mode setLowTemp = 1"
| "int_of_Mode setHighTemp = 2"
| "int_of_Mode setLowHumid = 3"
| "int_of_Mode setHighHumid = 4"

text \<open>
  \<open>toggleMode\<close> only casts the values 1 to 4; the last branch stands for the values of
  no enumerator, which the sketch never produces.
\<close>

definition Mode_of_int :: "int \<Rightarrow> Mode" where
  "Mode_of_int i =
     (if i = 0 then idle
      else if i = 1 then setLowTemp
      else if i = 2 then setHighTemp
      else if i = 3 then setLowHumid
      else setHighHumid)"

definition toggleMode :: "Sys \<Rightarrow> Sys" where
  "toggleMode s =
     (if mode (state s) = setHighHumid then toggleModeToIdle s
      else s\<lparr>state := (state s)\<lparr>mode := Mode_of_int (int_of_Mode (mode (state s)) + 1)\<rparr>\<rparr>)"

text \<open>
  \<open>processKeys\<close>: \<open>parameter\<close> is \<open>None\<close> for NULL. \<open>*parameter += step\<close> promotes both
  bytes to \<open>int\<close>, adds and converts back to \<open>byte\<close>, which is addition of 8-bit words.
  The inner \<open>now\<close> of the unchanged-key branch is a second reading of \<open>millis()\<close>.
\<close>

definition processKeys :: "key_in \<Rightarrow> byte_ref option \<Rightarrow> byte \<Rightarrow> Sys \<Rightarrow> Sys" where
  "processKeys inp parameter step s0 =
     (let s = emit EvAnalogRead s0;
          key = readKey (analogKey inp);
          now = millis_outer inp
      in if key = lastKey s then
           (let now = millis_inner inp
            in if mode (state s) \<noteq> idle \<and> 0 <s lastTime s \<and> KEY_TIMEOUT <s now - lastTime s
               then toggleModeToIdle s
               else s)
         else
           (let s = s\<lparr>lastKey := key, lastTime := now\<rparr>
            in if key = select then toggleMode s
               else if mode (state s) = idle then s
               else (case parameter of
                       None \<Rightarrow> s
                     | Some p \<Rightarrow>
                         if key = up then assign p (deref p s + step) s
                         else if key = down then assign p (deref p s - step) s
                         else s)))"

definition displayIdle :: "Sys \<Rightarrow> Sys" where
  "displayIdle s = emit EvDisplayIdle s"

definition displaySetup :: "byte_ref \<Rightarrow> Sys \<Rightarrow> Sys" where
  "displaySetup p s = emit (EvDisplaySetup p) s"

definition processIU :: "key_in \<Rightarrow> Sys \<Rightarrow> Sys" where
  "processIU inp s = processKeys inp None 0 (displayIdle s)"

definition processSensors :: "sensors_in \<Rightarrow> Sys \<Rightarrow> Sys" where
  "processSensors inp s =
     (let now = millis_now inp
      in if SENSORS_READ_PERIOD <s now - lastReadTime s then
           (let s = s\<lparr>lastReadTime := now\<rparr>;
                s = emit EvReadTemperature s;
                s = s\<lparr>state := (state s)\<lparr>temp := readTemperature inp\<rparr>\<rparr>;
                s = processIU (iu_after_temp inp) s;
                s = emit EvReadHumidity s;
                s = s\<lparr>state := (state s)\<lparr>humid := readHumidity inp\<rparr>\<rparr>;
                s = processIU (iu_after_humid inp) s;
                s = emit EvRequestTemperatures s;
                s = processIU (iu_after_request inp) s;
                s = emit EvGetTempC s;
                s = s\<lparr>state := (state s)\<lparr>outdoorTemp := getTempC inp\<rparr>\<rparr>;
                s = processIU (iu_after_outdoor inp) s
            in s)
         else s)"

definition isValidTemp :: "float \<Rightarrow> bool" where
  "isValidTemp t = (float_less (float_of_int (- 90)) t \<and> float_less t (float_of_int 90))"

definition isValidHumid :: "float \<Rightarrow> bool" where
  "isValidHumid h = (float_le (float_of_int 10) h \<and> float_le h (float_of_int 100))"

definition processClimate :: "Sys \<Rightarrow> Sys" where
  "processClimate s0 =
     (if \<not> isValidTemp (temp (state s0))
         \<or> \<not> isValidHumid (humid (state s0))
         \<or> \<not> isValidTemp (outdoorTemp (state s0))
      then s0\<lparr>state := (state s0)\<lparr>tempOn := False, humidOn := False\<rparr>\<rparr>
      else
        (let s = (if float_le (temp (state s0)) (float_of_byte (lowTemp (config s0)))
                  then s0\<lparr>state := (state s0)\<lparr>tempOn := True\<rparr>\<rparr>
                  else if float_le (float_of_byte (highTemp (config s0))) (temp (state s0))
                  then s0\<lparr>state := (state s0)\<lparr>tempOn := False\<rparr>\<rparr>
                  else s0)
         in if float_less (outdoorTemp (state s)) (temp (state s))
            then s\<lparr>state := (state s)\<lparr>humidOn := False\<rparr>\<rparr>
            else if float_le (humid (state s)) (float_of_byte (lowHumid (config s)))
            then s\<lparr>state := (state s)\<lparr>humidOn := False\<rparr>\<rparr>
            else if float_le (float_of_byte (highHumid (config s))) (humid (state s))
            then s\<lparr>state := (state s)\<lparr>humidOn := True\<rparr>\<rparr>
            else s))"

definition boolToDigital :: "bool \<Rightarrow> level" where
  "boolToDigital val = (if val then LOW else HIGH)"

definition processRelays :: "Sys \<Rightarrow> Sys" where
  "processRelays s =
     emit (EvDigitalWrite RELAY_HUMID_PIN (boolToDigital (humidOn (state s))))
       (emit (EvDigitalWrite RELAY_TEMP_PIN (boolToDigital (tempOn (state s)))) s)"

definition loopIdle :: "loop_in \<Rightarrow> Sys \<Rightarrow> Sys" where
  "loopIdle inp s =
     processRelays (processClimate (processSensors (sens_in inp) (processIU (keys_in inp) s)))"

definition loopSetup :: "byte_ref \<Rightarrow> byte \<Rightarrow> loop_in \<Rightarrow> Sys \<Rightarrow> Sys" where
  "loopSetup parameter step inp s =
     displaySetup parameter (processKeys (keys_in inp) (Some parameter) step s)"

definition loop :: "loop_in \<Rightarrow> Sys \<Rightarrow> Sys" where
  "loop inp s =
     (case mode (state s) of
        idle \<Rightarrow> loopIdle inp s
      | setLowTemp \<Rightarrow> loopSetup Ref_lowTemp 1 inp s
      | setHighTemp \<Rightarrow> loopSetup Ref_highTemp 1 inp s
      | setLowHumid \<Rightarrow> loopSetup Ref_lowHumid 5 inp s
      | setHighHumid \<Rightarrow> loopSetup Ref_highHumid 5 inp s)"

definition resetDefaultConfig :: "Sys \<Rightarrow> Sys" where
  "resetDefaultConfig s =
     s\<lparr>config := \<lparr>lowTemp = 4, highTemp = 6, lowHumid = 60, highHumid = 70\<rparr>\<rparr>"

text \<open>The read of the EEPROM is commented out in the sketch: the defaults are always taken.\<close>

definition restoreConfig :: "Sys \<Rightarrow> Sys" where
  "restoreConfig s = resetDefaultConfig s"

text \<open>
  The globals and statics as C++ initialises them before the sketch starts: zero everywhere,
  which is \<open>idle\<close> for the mode, and \<open>none\<close> and 0 for the statics of \<open>processKeys\<close>.
\<close>

definition static_init :: Sys where
  "static_init =
     \<lparr>state = \<lparr>mode = idle, temp = Finite 0, humid = Finite 0, outdoorTemp = Finite 0,
                tempOn = False, humidOn = False\<rparr>,
      config = \<lparr>lowTemp = 0, highTemp = 0, lowHumid = 0, highHumid = 0\<rparr>,
      lastKey = none, lastTime = 0, lastReadTime = 0, trace = []\<rparr>"

text \<open>
  The start-up function of the sketch, as far as it touches the globals: the relays are written, the mode is set
  and the configuration restored. The start of the LCD and sensor libraries and the
  banner change none of them and are left out.
\<close>

definition setup_sketch :: "Sys \<Rightarrow> Sys" where
  "setup_sketch s =
     (let s = processRelays s;
          s = s\<lparr>state := (state s)\<lparr>mode := idle\<rparr>\<rparr>
      in restoreConfig s)"

section \<open>Observing runs of the input machine\<close>

text \<open>The number of \<open>writeConfig\<close> calls made so far.\<close>

definition saves :: "Sys \<Rightarrow> nat" where
  "saves s = length (filter (\<lambda>e. e = EvWriteConfig) (trace s))"

text \<open>A tick is one call of \<open>processKeys\<close>: what it reads and its two arguments.\<close>

type_synonym tick = "key_in \<times> byte_ref option \<times> byte"

fun run_keys :: "tick list \<Rightarrow> Sys \<Rightarrow> Sys" where
  "run_keys [] s = s"
| "run_keys ((inp, parameter, step) # ts) s = run_keys ts (processKeys inp parameter step s)"

text \<open>The tick reads a key that differs from the remembered one, and the key is Select.\<close>

definition select_edge :: "key_in \<Rightarrow> Sys \<Rightarrow> bool" where
  "select_edge inp s = (readKey (analogKey inp) = select \<and> lastKey s \<noteq> select)"

text \<open>The tick reads the remembered key and the test of the idle-timeout succeeds.\<close>

definition timeout_fires :: "key_in \<Rightarrow> Sys \<Rightarrow> bool" where
  "timeout_fires inp s =
     (readKey (analogKey inp) = lastKey s \<and> mode (state s) \<noteq> idle \<and> 0 <s lastTime s
      \<and> KEY_TIMEOUT <s millis_inner inp - lastTime s)"

fun count_select_edges :: "tick list \<Rightarrow> Sys \<Rightarrow> nat" where
  "count_select_edges [] s = 0"
| "count_select_edges ((inp, parameter, step) # ts) s =
     (if select_edge inp s then 1 else 0) + count_select_edges ts (processKeys inp parameter step s)"

fun count_timeouts :: "tick list \<Rightarrow> Sys \<Rightarrow> nat" where
  "count_timeouts [] s = 0"
| "count_timeouts ((inp, parameter, step) # ts) s =
     (if timeout_fires inp s then 1 else 0) + count_timeouts ts (processKeys inp parameter step s)"

section \<open>States and inputs for the examples\<close>

text \<open>
  The state after start-up (default thresholds 4, 6, 60, 70) with the given readings and
  actuator values stored.
\<close>

definition sample_sys :: "float \<Rightarrow> float \<Rightarrow> float \<Rightarrow> bool \<Rightarrow> bool \<Rightarrow> Sys" where
  "sample_sys t h ot heater fan =
     (setup_sketch static_init)
       \<lparr>state := \<lparr>mode = idle, temp = t, humid = h, outdoorTemp = ot,
                   tempOn = heater, humidOn = fan\<rparr>\<rparr>"

text \<open>
  The state after start-up with the given mode, and the given remembered key and time of
  its last change.
\<close>

definition keys_sys :: "Mode \<Rightarrow> Key \<Rightarrow> long \<Rightarrow> Sys" where
  "keys_sys m k t =
     (let s = setup_sketch static_init
      in s\<lparr>state := (state s)\<lparr>mode := m\<rparr>, lastKey := k, lastTime := t\<rparr>)"

text \<open>A reading of the analog pin at a time of the clock.\<close>

definition key_at :: "int \<Rightarrow> long \<Rightarrow> key_in" where
  "key_at a t = \<lparr>analogKey = a, millis_outer = t, millis_inner = t\<rparr>"

text \<open>One iteration's worth of reads: the same key and clock at every read, and the three samples.\<close>

definition loop_at :: "int \<Rightarrow> long \<Rightarrow> float \<Rightarrow> float \<Rightarrow> float \<Rightarrow> loop_in" where
  "loop_at a t rt rh ro =
     \<lparr>keys_in = key_at a t,
      sens_in = \<lparr>millis_now = t, readTemperature = rt, iu_after_temp = key_at a t,
                 readHumidity = rh, iu_after_humid = key_at a t,
                 iu_after_request = key_at a t, getTempC = ro,
                 iu_after_outdoor = key_at a t\<rparr>\<rparr>"

text \<open>
  Five presses of Select with a release after each of the first four, each tick with the
  arguments \<open>loop\<close> passes in the mode of that moment.
\<close>

definition five_selects :: "tick list" where
  "five_selects =
     [(key_at 700 1000, None, 0),
      (key_at 1023 1200, Some Ref_lowTemp, 1),
      (key_at 700 2000, Some Ref_lowTemp, 1),
      (key_at 1023 2200, Some Ref_highTemp, 1),
      (key_at 700 3000, Some Ref_highTemp, 1),
      (key_at 1023 3200, Some Ref_lowHumid, 5),
      (key_at 700 4000, Some Ref_lowHumid, 5),
      (key_at 1023 4200, Some Ref_highHumid, 5),
      (key_at 700 5000, Some Ref_highHumid, 5)]"

text \<open>
  Five presses of Select again, with a pause of 38.8 s after the first release: the tick
  at clock 40000 reads the remembered key.
\<close>

definition five_selects_paused :: "tick list" where
  "five_selects_paused =
     [(key_at 700 1000, None, 0),
      (key_at 1023 1200, Some Ref_lowTemp, 1),
      (key_at 1023 40000, Some Ref_lowTemp, 1),
      (key_at 700 41000, None, 0),
      (key_at 1023 41200, Some Ref_lowTemp, 1),
      (key_at 700 42000, Some Ref_lowTemp, 1),
      (key_at 1023 42200, Some Ref_highTemp, 1),
      (key_at 700 43000, Some Ref_highTemp, 1),
      (key_at 1023 43200, Some Ref_lowHumid, 5),
      (key_at 700 44000, Some Ref_lowHumid, 5)]"

section \<open>Observing the sampling\<close>

text \<open>
  The trace without the \<open>writeConfig\<close> calls that \<open>processKeys\<close> may make: the screen
  refreshes, the polls of the keys, the sensor reads and the relay writes, in order.
\<close>

definition sampling_view :: "event list \<Rightarrow> event list" where
  "sampling_view es = filter (\<lambda>e. e \<noteq> EvWriteConfig) es"

text \<open>
  What the input machine owns: the mode, the thresholds, the remembered key and the time
  of its last change, with the number of \<open>writeConfig\<close> calls made.
\<close>

definition key_machine :: "Sys \<Rightarrow> Mode \<times> Config \<times> Key \<times> long \<times> nat" where
  "key_machine s = (mode (state s), config s, lastKey s, lastTime s, saves s)"

text \<open>The polls of the keys in one iteration of \<open>loopIdle\<close> that reads the sensors.\<close>

definition polls_when_due :: "loop_in \<Rightarrow> tick list" where
  "polls_when_due inp =
     [(keys_in inp, None, 0),
      (iu_after_temp (sens_in inp), None, 0),
      (iu_after_humid (sens_in inp), None, 0),
      (iu_after_request (sens_in inp), None, 0),
      (iu_after_outdoor (sens_in inp), None, 0)]"

section \<open>The climate rules\<close>

lemma isValidTemp_iff: "isValidTemp t \<longleftrightarrow> t \<in> Finite ` {r. - 90 < r \<and> r < 90}"
  by (cases t) (auto simp: isValidTemp_def float_of_int_def)

lemma isValidHumid_iff: "isValidHumid h \<longleftrightarrow> h \<in> Finite ` {r. 10 \<le> r \<and> r \<le> 100}"
  by (cases h) (auto simp: isValidHumid_def float_of_int_def)

lemma float_of_byte_eq: "float_of_byte b = Finite (real (unat b))"
  by (simp add: float_of_byte_def float_of_int_def)

lemmas fixture_defs =
  sample_sys_def keys_sys_def key_at_def loop_at_def setup_sketch_def static_init_def
  restoreConfig_def resetDefaultConfig_def processRelays_def emit_def boolToDigital_def
  RELAY_TEMP_PIN_def RELAY_HUMID_PIN_def

lemmas machine_defs =
  processKeys_def readKey_def toggleMode_def toggleModeToIdle_def writeConfig_def
  Mode_of_int_def assign_def deref_def KEY_TIMEOUT_def SENSORS_READ_PERIOD_def saves_def
  select_edge_def timeout_fires_def word_sless_alt Let_def

text \<open>
  C1. Whenever the stored temperature is not a number strictly between -90 and 90, or the
  stored humidity is not a number from 10 to 100 inclusive, or the stored outdoor
  temperature is not a number strictly between -90 and 90 (NaN and the infinities
  included), \<open>processClimate\<close> leaves both \<open>tempOn\<close> (heater) and \<open>humidOn\<close> (fan)
  false, for every configuration and every previous actuator state.
\<close>

theorem processClimate_safety_fallback:
  assumes "temp (state s) \<notin> Finite ` {r. - 90 < r \<and> r < 90}
         \<or> humid (state s) \<notin> Finite ` {r. 10 \<le> r \<and> r \<le> 100}
         \<or> outdoorTemp (state s) \<notin> Finite ` {r. - 90 < r \<and> r < 90}"
  shows "tempOn (state (processClimate s)) = False \<and> humidOn (state (processClimate s)) = False"
  using assms unfolding isValidTemp_iff [symmetric] isValidHumid_iff [symmetric]
  by (auto simp: processClimate_def)

theorem processClimate_safety_fallback_witness:
  "tempOn (state (processClimate (sample_sys NaN (Finite 80) (Finite 20) True True))) = False
   \<and> humidOn (state (processClimate (sample_sys NaN (Finite 80) (Finite 20) True True))) = False
   \<and> tempOn (state (processClimate (sample_sys (Finite 3) (Finite 5) (Finite 20) True True))) = False
   \<and> humidOn (state (processClimate (sample_sys (Finite 3) (Finite 5) (Finite 20) True True))) = False
   \<and> tempOn (state (processClimate (sample_sys (Finite 3) (Finite 80) (Finite (- 127)) True True)))
       = False
   \<and> humidOn (state (processClimate (sample_sys (Finite 3) (Finite 80) (Finite (- 127)) True True)))
       = False"
  using
    processClimate_safety_fallback [of "sample_sys NaN (Finite 80) (Finite 20) True True"]
    processClimate_safety_fallback [of "sample_sys (Finite 3) (Finite 5) (Finite 20) True True"]
    processClimate_safety_fallback [of "sample_sys (Finite 3) (Finite 80) (Finite (- 127)) True True"]
  by (simp add: sample_sys_def image_iff)

text \<open>
  C2. With all three readings valid, the heater is on after \<open>processClimate\<close> when
  \<open>temp \<le> lowTemp\<close> (also when \<open>lowTemp = highTemp = temp\<close>), off when
  \<open>temp > lowTemp\<close> and \<open>temp \<ge> highTemp\<close>, and unchanged when
  \<open>lowTemp < temp < highTemp\<close>.
\<close>

theorem processClimate_heater_rule:
  assumes "temp (state s) = Finite t" "- 90 < t" "t < 90"
    and "humid (state s) = Finite h" "10 \<le> h" "h \<le> 100"
    and "outdoorTemp (state s) = Finite ot" "- 90 < ot" "ot < 90"
  shows "(t \<le> real (unat (lowTemp (config s))) \<longrightarrow> tempOn (state (processClimate s)) = True)
       \<and> (real (unat (lowTemp (config s))) < t \<and> real (unat (highTemp (config s))) \<le> t
            \<longrightarrow> tempOn (state (processClimate s)) = False)
       \<and> (real (unat (lowTemp (config s))) < t \<and> t < real (unat (highTemp (config s)))
            \<longrightarrow> tempOn (state (processClimate s)) = tempOn (state s))"
  using assms
  by (simp add: processClimate_def isValidTemp_iff isValidHumid_iff float_of_byte_eq Let_def)

theorem processClimate_heater_rule_witness:
  "tempOn (state (processClimate
      ((sample_sys (Finite 5) (Finite 50) (Finite 10) False False)
         \<lparr>config := \<lparr>lowTemp = 5, highTemp = 5, lowHumid = 60, highHumid = 70\<rparr>\<rparr>))) = True
   \<and> tempOn (state (processClimate (sample_sys (Finite 6) (Finite 50) (Finite 10) True False))) = False
   \<and> tempOn (state (processClimate (sample_sys (Finite 5) (Finite 50) (Finite 10) True False))) = True
   \<and> tempOn (state (processClimate (sample_sys (Finite 5) (Finite 50) (Finite 10) False False))) = False"
  using
    processClimate_heater_rule [of "(sample_sys (Finite 5) (Finite 50) (Finite 10) False False)
         \<lparr>config := \<lparr>lowTemp = 5, highTemp = 5, lowHumid = 60, highHumid = 70\<rparr>\<rparr>" 5 50 10]
    processClimate_heater_rule [of "sample_sys (Finite 6) (Finite 50) (Finite 10) True False" 6 50 10]
    processClimate_heater_rule [of "sample_sys (Finite 5) (Finite 50) (Finite 10) True False" 5 50 10]
    processClimate_heater_rule [of "sample_sys (Finite 5) (Finite 50) (Finite 10) False False" 5 50 10]
  by (simp add: fixture_defs)

text \<open>
  C3. With all three readings valid, the fan is off after \<open>processClimate\<close> whenever
  \<open>outdoorTemp < temp\<close>, whatever the humidity; otherwise it is off when
  \<open>humid \<le> lowHumid\<close>, on when \<open>humid \<ge> highHumid\<close>, and unchanged when
  \<open>lowHumid < humid < highHumid\<close>.
\<close>

theorem processClimate_fan_rule:
  assumes "temp (state s) = Finite t" "- 90 < t" "t < 90"
    and "humid (state s) = Finite h" "10 \<le> h" "h \<le> 100"
    and "outdoorTemp (state s) = Finite ot" "- 90 < ot" "ot < 90"
  shows "(ot < t \<longrightarrow> humidOn (state (processClimate s)) = False)
       \<and> (t \<le> ot \<and> h \<le> real (unat (lowHumid (config s)))
            \<longrightarrow> humidOn (state (processClimate s)) = False)
       \<and> (t \<le> ot \<and> real (unat (lowHumid (config s))) < h
              \<and> real (unat (highHumid (config s))) \<le> h
            \<longrightarrow> humidOn (state (processClimate s)) = True)
       \<and> (t \<le> ot \<and> real (unat (lowHumid (config s))) < h
              \<and> h < real (unat (highHumid (config s)))
            \<longrightarrow> humidOn (state (processClimate s)) = humidOn (state s))"
  using assms
  by (simp add: processClimate_def isValidTemp_iff isValidHumid_iff float_of_byte_eq Let_def)

theorem processClimate_fan_rule_witness:
  "humidOn (state (processClimate (sample_sys (Finite 20) (Finite 90) (Finite 10) False True))) = False
   \<and> humidOn (state (processClimate (sample_sys (Finite 5) (Finite 60) (Finite 10) False True))) = False
   \<and> humidOn (state (processClimate (sample_sys (Finite 5) (Finite 70) (Finite 10) False False))) = True
   \<and> humidOn (state (processClimate (sample_sys (Finite 5) (Finite 65) (Finite 10) False True))) = True
   \<and> humidOn (state (processClimate (sample_sys (Finite 5) (Finite 65) (Finite 10) False False))) = False"
  using
    processClimate_fan_rule [of "sample_sys (Finite 20) (Finite 90) (Finite 10) False True" 20 90 10]
    processClimate_fan_rule [of "sample_sys (Finite 5) (Finite 60) (Finite 10) False True" 5 60 10]
    processClimate_fan_rule [of "sample_sys (Finite 5) (Finite 70) (Finite 10) False False" 5 70 10]
    processClimate_fan_rule [of "sample_sys (Finite 5) (Finite 65) (Finite 10) False True" 5 65 10]
    processClimate_fan_rule [of "sample_sys (Finite 5) (Finite 65) (Finite 10) False False" 5 65 10]
  by (simp add: fixture_defs)

text \<open>
  C10. \<open>processClimate\<close> changes at most \<open>tempOn\<close> and \<open>humidOn\<close>: the three stored
  readings, the mode, the four thresholds and everything else are as before, in the
  fallback branch and in the hysteresis branches alike.
\<close>

theorem processClimate_frame:
  "processClimate s =
     s\<lparr>state := (state s)\<lparr>tempOn := tempOn (state (processClimate s)),
                          humidOn := humidOn (state (processClimate s))\<rparr>\<rparr>
   \<and> temp (state (processClimate s)) = temp (state s)
   \<and> humid (state (processClimate s)) = humid (state s)
   \<and> outdoorTemp (state (processClimate s)) = outdoorTemp (state s)
   \<and> mode (state (processClimate s)) = mode (state s)
   \<and> config (processClimate s) = config s"
  by (simp add: processClimate_def Let_def)

theorem processClimate_frame_witness:
  "temp (state (processClimate (sample_sys NaN (Finite 80) (Finite 20) True True))) = NaN
   \<and> humid (state (processClimate (sample_sys (Finite 3) (Finite 80) (Finite 20) False False)))
       = Finite 80
   \<and> config (processClimate (sample_sys (Finite 3) (Finite 80) (Finite 20) False False))
       = \<lparr>lowTemp = 4, highTemp = 6, lowHumid = 60, highHumid = 70\<rparr>"
  using
    processClimate_frame [of "sample_sys NaN (Finite 80) (Finite 20) True True"]
    processClimate_frame [of "sample_sys (Finite 3) (Finite 80) (Finite 20) False False"]
  by (simp add: fixture_defs)

section \<open>The input machine\<close>

text \<open>
  The test \<open>c <s now - last\<close> of the sketch is the test "more than \<open>c\<close> milliseconds
  passed" as long as the clock has not wrapped in between and less than \<open>2 ^ 31\<close>
  milliseconds passed.
\<close>

lemma sint_small:
  fixes w :: long
  assumes "uint w < 2 ^ 31"
  shows "sint w = uint w"
proof -
  have "sint w = signed_take_bit 31 (uint w)"
    by (simp add: sint_uint)
  also have "\<dots> = uint w"
    using assms by (intro signed_take_bit_int_eq_self) (auto intro: order_trans [of _ 0])
  finally show ?thesis .
qed

lemma signed_elapsed:
  fixes a b c :: long
  assumes "uint a \<le> uint b" "uint b - uint a < 2 ^ 31" "uint c < 2 ^ 31"
  shows "(c <s b - a) = (uint c < uint b - uint a)"
proof -
  have d: "uint (b - a) = uint b - uint a"
    using assms(1) by (simp add: uint_sub_lem)
  have "sint (b - a) = uint b - uint a"
    using sint_small [of "b - a"] assms(2) d by simp
  moreover have "sint c = uint c"
    using assms(3) by (rule sint_small)
  ultimately show ?thesis by (simp add: word_sless_alt)
qed

lemma saves_emit: "saves (emit e s) = (if e = EvWriteConfig then saves s + 1 else saves s)"
  by (simp add: saves_def emit_def)

lemma processKeys_held:
  assumes "readKey (analogKey inp) = lastKey s"
  shows "processKeys inp parameter step s =
     (if mode (state s) \<noteq> idle \<and> 0 <s lastTime s \<and> KEY_TIMEOUT <s millis_inner inp - lastTime s
      then toggleModeToIdle (emit EvAnalogRead s) else emit EvAnalogRead s)"
  using assms by (simp add: processKeys_def Let_def emit_def)

lemma processKeys_edge:
  assumes "readKey (analogKey inp) \<noteq> lastKey s"
  shows "processKeys inp parameter step s =
     (let s1 = (emit EvAnalogRead s)\<lparr>lastKey := readKey (analogKey inp), lastTime := millis_outer inp\<rparr>
      in if readKey (analogKey inp) = select then toggleMode s1
         else if mode (state s) = idle then s1
         else (case parameter of None \<Rightarrow> s1
               | Some p \<Rightarrow> if readKey (analogKey inp) = up then assign p (deref p s + step) s1
                           else if readKey (analogKey inp) = down then assign p (deref p s - step) s1
                           else s1))"
  using assms by (simp add: processKeys_def Let_def emit_def deref_def split: option.splits byte_ref.splits)

text \<open>The successor of a mode along the cycle.\<close>

lemma toggleMode_mode:
  "mode (state (toggleMode s)) =
     (case mode (state s) of idle \<Rightarrow> setLowTemp | setLowTemp \<Rightarrow> setHighTemp
      | setHighTemp \<Rightarrow> setLowHumid | setLowHumid \<Rightarrow> setHighHumid | setHighHumid \<Rightarrow> idle)"
  by (cases "mode (state s)")
     (simp_all add: toggleMode_def toggleModeToIdle_def writeConfig_def emit_def Mode_of_int_def)

lemma toggleMode_saves:
  "saves (toggleMode s) = (if mode (state s) = setHighHumid then saves s + 1 else saves s)"
  by (simp add: toggleMode_def toggleModeToIdle_def writeConfig_def saves_def emit_def)

lemma toggleMode_config: "config (toggleMode s) = config s"
  by (simp add: toggleMode_def toggleModeToIdle_def writeConfig_def emit_def)

lemma assign_frame:
  "state (assign p v s) = state s" "trace (assign p v s) = trace s"
  "saves (assign p v s) = saves s"
  by (cases p; simp add: assign_def saves_def)+

lemma processKeys_select_edge:
  assumes "readKey (analogKey inp) = select" "lastKey s \<noteq> select"
  shows "processKeys inp parameter step s =
     toggleMode ((emit EvAnalogRead s)\<lparr>lastKey := select, lastTime := millis_outer inp\<rparr>)"
  using assms by (simp add: processKeys_edge Let_def)

lemma processKeys_other:
  assumes "\<not> select_edge inp s" "\<not> timeout_fires inp s"
  shows "mode (state (processKeys inp parameter step s)) = mode (state s)
       \<and> saves (processKeys inp parameter step s) = saves s"
proof (cases "readKey (analogKey inp) = lastKey s")
  case True
  from assms(2) True have nt: "\<not> (mode (state s) \<noteq> idle \<and> 0 <s lastTime s
      \<and> KEY_TIMEOUT <s millis_inner inp - lastTime s)"
    unfolding timeout_fires_def by blast
  have "processKeys inp parameter step s = emit EvAnalogRead s"
    unfolding processKeys_held [OF True] by (rule if_not_P [OF nt])
  then show ?thesis
    by (simp add: saves_emit) (simp add: emit_def)
next
  case False
  with assms(1) have ns: "readKey (analogKey inp) \<noteq> select"
    by (auto simp: select_edge_def)
  let ?s1 = "(emit EvAnalogRead s)\<lparr>lastKey := readKey (analogKey inp), lastTime := millis_outer inp\<rparr>"
  have s1: "mode (state ?s1) = mode (state s)" "saves ?s1 = saves s"
    by (simp_all add: emit_def saves_def)
  have "processKeys inp parameter step s = ?s1
      \<or> (\<exists>p v. processKeys inp parameter step s = assign p v ?s1)"
    unfolding processKeys_edge [OF False] Let_def using ns
    by (cases parameter) auto
  then show ?thesis
    using s1 by (auto simp: assign_frame)
qed

lemma processKeys_select_step:
  assumes "select_edge inp s"
  shows "nat (int_of_Mode (mode (state (processKeys inp parameter step s))))
           = (nat (int_of_Mode (mode (state s))) + 1) mod 5
       \<and> saves (processKeys inp parameter step s)
           = saves s + (nat (int_of_Mode (mode (state s))) + 1) div 5"
proof -
  let ?s1 = "(emit EvAnalogRead s)\<lparr>lastKey := select, lastTime := millis_outer inp\<rparr>"
  have eq: "processKeys inp parameter step s = toggleMode ?s1"
    using assms by (simp add: select_edge_def processKeys_select_edge)
  have s1: "mode (state ?s1) = mode (state s)" "saves ?s1 = saves s"
    by (simp_all add: emit_def saves_def)
  show ?thesis
    unfolding eq toggleMode_mode toggleMode_saves s1
    by (cases "mode (state s)") simp_all
qed

lemma toggleMode_keeps_key:
  "lastKey (toggleMode s) = lastKey s" "lastTime (toggleMode s) = lastTime s"
  by (simp_all add: toggleMode_def toggleModeToIdle_def writeConfig_def emit_def)

lemma assign_keeps_key:
  "lastKey (assign p v s) = lastKey s" "lastTime (assign p v s) = lastTime s"
  by (cases p; simp add: assign_def)+

lemma processKeys_records:
  assumes "readKey (analogKey inp) \<noteq> lastKey s"
  shows "lastKey (processKeys inp parameter step s) = readKey (analogKey inp)
       \<and> lastTime (processKeys inp parameter step s) = millis_outer inp"
proof -
  let ?s1 = "(emit EvAnalogRead s)\<lparr>lastKey := readKey (analogKey inp), lastTime := millis_outer inp\<rparr>"
  have s1: "lastKey ?s1 = readKey (analogKey inp)" "lastTime ?s1 = millis_outer inp"
    by (simp_all add: emit_def)
  have "processKeys inp parameter step s = ?s1
      \<or> processKeys inp parameter step s = toggleMode ?s1
      \<or> (\<exists>p v. processKeys inp parameter step s = assign p v ?s1)"
    unfolding processKeys_edge [OF assms] Let_def
    by (cases parameter) auto
  then show ?thesis
    using s1 by (auto simp: toggleMode_keeps_key assign_keeps_key)
qed

lemma div5_split:
  fixes a n :: nat
  shows "a div 5 + (a mod 5 + n) div 5 = (a + n) div 5"
proof -
  have "a + n = 5 * (a div 5) + (a mod 5 + n)"
    by simp
  then have "(a + n) div 5 = (5 * (a div 5) + (a mod 5 + n)) div 5"
    by presburger
  also have "\<dots> = a div 5 + (a mod 5 + n) div 5"
    by (simp only: div_mult_self4)
  finally show ?thesis by simp
qed

lemma div5_carry:
  fixes m n :: nat
  shows "(m + 1) div 5 + ((m + 1) mod 5 + n) div 5 = (m + Suc n) div 5"
  using div5_split [of "m + 1" n] by (simp only: add_Suc_right Suc_eq_plus1 add.assoc add.commute [of 1 n])

lemma mod5_carry:
  fixes m n :: nat
  shows "((m + 1) mod 5 + n) mod 5 = (m + Suc n) mod 5"
  by presburger

lemma run_keys_cycle:
  assumes "count_timeouts ts s = 0"
  shows "nat (int_of_Mode (mode (state (run_keys ts s))))
           = (nat (int_of_Mode (mode (state s))) + count_select_edges ts s) mod 5
       \<and> saves (run_keys ts s)
           = saves s + (nat (int_of_Mode (mode (state s))) + count_select_edges ts s) div 5"
  using assms
proof (induction ts arbitrary: s)
  case Nil
  have "nat (int_of_Mode (mode (state s))) < 5"
    by (cases "mode (state s)") simp_all
  then show ?case by simp
next
  case (Cons t ts)
  obtain inp parameter step where t: "t = (inp, parameter, step)"
    by (cases t) auto
  let ?s' = "processKeys inp parameter step s"
  let ?m = "nat (int_of_Mode (mode (state s)))"
  let ?n = "count_select_edges ts ?s'"
  from Cons.prems t have nt: "\<not> timeout_fires inp s" and rest: "count_timeouts ts ?s' = 0"
    by (auto split: if_splits)
  have r: "run_keys (t # ts) s = run_keys ts ?s'"
    by (simp only: t run_keys.simps)
  from Cons.IH [OF rest]
  have IH1: "nat (int_of_Mode (mode (state (run_keys ts ?s'))))
      = (nat (int_of_Mode (mode (state ?s'))) + ?n) mod 5"
    and IH2: "saves (run_keys ts ?s')
      = saves ?s' + (nat (int_of_Mode (mode (state ?s'))) + ?n) div 5"
    by blast+
  show ?case
  proof (cases "select_edge inp s")
    case True
    have c: "count_select_edges (t # ts) s = Suc ?n"
      using True by (simp add: t)
    have m': "nat (int_of_Mode (mode (state ?s'))) = (?m + 1) mod 5"
      and sv: "saves ?s' = saves s + (?m + 1) div 5"
      using processKeys_select_step [OF True] by blast+
    have "nat (int_of_Mode (mode (state (run_keys (t # ts) s)))) = (?m + Suc ?n) mod 5"
      by (simp only: r IH1 m' mod5_carry)
    moreover have "saves (run_keys (t # ts) s) = saves s + (?m + Suc ?n) div 5"
      by (simp only: r IH2 m' sv add.assoc div5_carry)
    ultimately show ?thesis
      by (simp only: c)
  next
    case False
    have c: "count_select_edges (t # ts) s = ?n"
      using False by (simp add: t)
    have m': "mode (state ?s') = mode (state s)" and sv: "saves ?s' = saves s"
      using processKeys_other [OF False nt] by blast+
    show ?thesis
      using IH1 IH2 by (simp only: r c m' sv)
  qed
qed

lemma run_keys_held:
  assumes "\<forall>t\<in>set ts. readKey (analogKey (fst t)) = lastKey s"
    and "mode (state s) = idle \<or> lastTime s = 0"
  shows "run_keys ts s = s\<lparr>trace := trace s @ replicate (length ts) EvAnalogRead\<rparr>
       \<and> count_timeouts ts s = 0"
  using assms
proof (induction ts arbitrary: s)
  case Nil
  then show ?case by simp
next
  case (Cons t ts)
  obtain inp parameter step where t: "t = (inp, parameter, step)"
    by (cases t) auto
  from Cons.prems t have k: "readKey (analogKey inp) = lastKey s"
    by simp
  from Cons.prems(2) have nt: "\<not> (mode (state s) \<noteq> idle \<and> 0 <s lastTime s
      \<and> KEY_TIMEOUT <s millis_inner inp - lastTime s)"
    by auto
  have step: "processKeys inp parameter step s = emit EvAnalogRead s"
    unfolding processKeys_held [OF k] by (rule if_not_P [OF nt])
  have "run_keys ts (emit EvAnalogRead s) =
      (emit EvAnalogRead s)\<lparr>trace := trace (emit EvAnalogRead s) @ replicate (length ts) EvAnalogRead\<rparr>
      \<and> count_timeouts ts (emit EvAnalogRead s) = 0"
    using Cons.prems by (intro Cons.IH) (simp_all add: emit_def)
  then show ?case
    using nt k by (simp add: t step emit_def timeout_fires_def replicate_append_same)
qed

text \<open>
  C4. On a tick where \<open>readKey\<close> returns the remembered key, \<open>processKeys\<close> changes no
  threshold and neither \<open>lastKey\<close> nor \<open>lastTime\<close>; the mode is as before, and nothing but
  the analog read happens, unless the test of the idle-timeout succeeds, in which case
  the mode becomes \<open>idle\<close> and \<open>writeConfig\<close> is called once.
\<close>

theorem processKeys_held_key:
  assumes "readKey (analogKey inp) = lastKey s"
  shows "config (processKeys inp parameter step s) = config s
       \<and> lastKey (processKeys inp parameter step s) = lastKey s
       \<and> lastTime (processKeys inp parameter step s) = lastTime s
       \<and> (if mode (state s) \<noteq> idle \<and> 0 <s lastTime s
               \<and> KEY_TIMEOUT <s millis_inner inp - lastTime s
          then mode (state (processKeys inp parameter step s)) = idle
             \<and> trace (processKeys inp parameter step s) = trace s @ [EvAnalogRead, EvWriteConfig]
          else mode (state (processKeys inp parameter step s)) = mode (state s)
             \<and> trace (processKeys inp parameter step s) = trace s @ [EvAnalogRead])"
  by (simp add: processKeys_held [OF assms] toggleModeToIdle_def writeConfig_def emit_def)

theorem processKeys_held_key_witness:
  "config (processKeys (key_at 100 50000) (Some Ref_lowTemp) 1 (keys_sys setLowTemp up 40000))
     = \<lparr>lowTemp = 4, highTemp = 6, lowHumid = 60, highHumid = 70\<rparr>
   \<and> mode (state (processKeys (key_at 100 50000) (Some Ref_lowTemp) 1
        (keys_sys setLowTemp up 40000))) = setLowTemp
   \<and> mode (state (processKeys (key_at 700 50000) None 0 (keys_sys idle select 40000))) = idle
   \<and> mode (state (processKeys (key_at 100 80000) (Some Ref_lowTemp) 1
        (keys_sys setLowTemp up 40000))) = idle
   \<and> config (processKeys (key_at 100 80000) (Some Ref_lowTemp) 1 (keys_sys setLowTemp up 40000))
     = \<lparr>lowTemp = 4, highTemp = 6, lowHumid = 60, highHumid = 70\<rparr>"
  using
    processKeys_held_key [of "key_at 100 50000" "keys_sys setLowTemp up 40000" "Some Ref_lowTemp" 1]
    processKeys_held_key [of "key_at 700 50000" "keys_sys idle select 40000" None 0]
    processKeys_held_key [of "key_at 100 80000" "keys_sys setLowTemp up 40000" "Some Ref_lowTemp" 1]
  by (simp add: fixture_defs machine_defs)

text \<open>
  C5, as the sketch has it. A tick that reads Select while another key is remembered
  moves the mode one step along idle, setLowTemp, setHighTemp, setLowHumid, setHighHumid,
  idle, and calls \<open>writeConfig\<close> exactly on the step from setHighHumid to idle. So a run
  of ticks from idle that holds five such Select edges, and on which the idle-timeout
  does not fire, ends in idle with exactly one \<open>writeConfig\<close> call more.
\<close>

theorem select_edges_cycle:
  "(readKey (analogKey inp) = select \<and> lastKey s \<noteq> select \<longrightarrow>
      mode (state (processKeys inp parameter step s)) =
        (case mode (state s) of idle \<Rightarrow> setLowTemp | setLowTemp \<Rightarrow> setHighTemp
         | setHighTemp \<Rightarrow> setLowHumid | setLowHumid \<Rightarrow> setHighHumid | setHighHumid \<Rightarrow> idle)
      \<and> saves (processKeys inp parameter step s) =
          (if mode (state s) = setHighHumid then saves s + 1 else saves s)
      \<and> config (processKeys inp parameter step s) = config s)
   \<and> (mode (state s0) = idle \<and> count_timeouts ts s0 = 0 \<and> count_select_edges ts s0 = 5 \<longrightarrow>
      mode (state (run_keys ts s0)) = idle \<and> saves (run_keys ts s0) = saves s0 + 1)"
proof (intro conjI impI)
  assume e: "readKey (analogKey inp) = select \<and> lastKey s \<noteq> select"
  then have eq: "processKeys inp parameter step s =
      toggleMode ((emit EvAnalogRead s)\<lparr>lastKey := select, lastTime := millis_outer inp\<rparr>)"
    by (simp add: processKeys_select_edge)
  show "mode (state (processKeys inp parameter step s)) =
        (case mode (state s) of idle \<Rightarrow> setLowTemp | setLowTemp \<Rightarrow> setHighTemp
         | setHighTemp \<Rightarrow> setLowHumid | setLowHumid \<Rightarrow> setHighHumid | setHighHumid \<Rightarrow> idle)"
    by (simp add: eq toggleMode_mode emit_def)
  show "saves (processKeys inp parameter step s) =
          (if mode (state s) = setHighHumid then saves s + 1 else saves s)"
    unfolding eq toggleMode_saves by (simp add: saves_def emit_def)
  show "config (processKeys inp parameter step s) = config s"
    by (simp add: eq toggleMode_config emit_def)
next
  assume h: "mode (state s0) = idle \<and> count_timeouts ts s0 = 0 \<and> count_select_edges ts s0 = 5"
  then have c: "nat (int_of_Mode (mode (state (run_keys ts s0)))) = 0
      \<and> saves (run_keys ts s0) = saves s0 + 1"
    using run_keys_cycle [of ts s0] by simp
  then show "mode (state (run_keys ts s0)) = idle"
    by (cases "mode (state (run_keys ts s0))") simp_all
  from c show "saves (run_keys ts s0) = saves s0 + 1"
    by simp
qed

lemma five_selects_run:
  "count_timeouts five_selects (keys_sys idle none 0) = 0"
  "count_select_edges five_selects (keys_sys idle none 0) = 5"
  by (simp_all add: five_selects_def fixture_defs machine_defs)

theorem select_edges_cycle_witness:
  "mode (state (processKeys (key_at 700 1000) None 0 (keys_sys idle none 0))) = setLowTemp
   \<and> saves (processKeys (key_at 700 1000) None 0 (keys_sys idle none 0)) = 0
   \<and> mode (state (processKeys (key_at 700 5000) (Some Ref_highHumid) 5
        (keys_sys setHighHumid none 4200))) = idle
   \<and> saves (processKeys (key_at 700 5000) (Some Ref_highHumid) 5
        (keys_sys setHighHumid none 4200)) = 1
   \<and> mode (state (run_keys five_selects (keys_sys idle none 0))) = idle
   \<and> saves (run_keys five_selects (keys_sys idle none 0)) = 1"
  using
    select_edges_cycle [where inp = "key_at 700 1000" and s = "keys_sys idle none 0"
      and parameter = None and step = 0 and ?s0.0 = "keys_sys idle none 0" and ts = five_selects]
    select_edges_cycle [where inp = "key_at 700 5000" and s = "keys_sys setHighHumid none 4200"
      and parameter = "Some Ref_highHumid" and step = 5 and ?s0.0 = "keys_sys idle none 0"
      and ts = five_selects]
    five_selects_run
  by (simp add: fixture_defs readKey_def saves_def)

text \<open>
  C5 as stated fails when the idle-timeout fires between the Select edges: Select,
  release, a pause of 38.8 s (the mode falls back to idle and the thresholds are saved),
  then four more Select edges. The run holds five Select edges from idle and ends in
  setHighHumid.
\<close>

lemma five_selects_paused_run:
  "count_select_edges five_selects_paused (keys_sys idle none 0) = 5"
  "count_timeouts five_selects_paused (keys_sys idle none 0) = 1"
  "mode (state (run_keys five_selects_paused (keys_sys idle none 0))) = setHighHumid"
  "saves (run_keys five_selects_paused (keys_sys idle none 0)) = 1"
  by (simp_all add: five_selects_paused_def fixture_defs machine_defs)

theorem select_edges_cycle_counterexample:
  "mode (state (keys_sys idle none 0)) = idle
   \<and> count_select_edges five_selects_paused (keys_sys idle none 0) = 5
   \<and> mode (state (run_keys five_selects_paused (keys_sys idle none 0))) = setHighHumid
   \<and> saves (run_keys five_selects_paused (keys_sys idle none 0)) = 1"
  using five_selects_paused_run by (simp add: fixture_defs)

text \<open>
  A time of last change that is not 0 and below \<open>2 ^ 31\<close> passes the test
  \<open>lastTime > 0\<close> of the sketch.
\<close>

lemma recorded_time_positive:
  fixes w :: long
  assumes "w \<noteq> 0" "uint w < 2 ^ 31"
  shows "0 <s w"
proof -
  have "uint w \<noteq> 0"
    using assms(1) by (simp add: uint_0_iff)
  moreover have "0 \<le> uint w"
    by simp
  ultimately have "0 < uint w"
    by linarith
  then show ?thesis
    using sint_small [OF assms(2)] by (simp add: word_sless_alt)
qed

text \<open>
  C6, as the sketch has it. The idle-timeout is evaluated only on a tick that reads the
  remembered key. On such a tick, with the mode not idle, a change of key recorded (the
  time of the last change is not 0, the value it has before any change) at a clock below
  \<open>2 ^ 31\<close>, and the signed difference of the clock and \<open>lastTime\<close> above 30000, the mode
  becomes idle and \<open>writeConfig\<close> is called exactly once; further ticks with the same key
  leave the mode idle and call \<open>writeConfig\<close> no more. On a tick that reads another key
  the timeout is not looked at, whatever the clock reads: the key and the clock are
  recorded, the mode moves only if the key is Select, and \<open>writeConfig\<close> is called only
  on the step from setHighHumid.

  The statement is silent on a change recorded at a clock of \<open>2 ^ 31\<close> or more: there
  \<open>lastTime\<close> is negative as a \<open>long\<close>, the test \<open>lastTime > 0\<close> that stands for "a
  change was recorded" fails, and the timeout of the sketch does not fire.
\<close>

theorem idle_timeout_on_held_key:
  "(readKey (analogKey inp) = lastKey s
      \<and> mode (state s) \<noteq> idle
      \<and> lastTime s \<noteq> 0 \<and> uint (lastTime s) < 2 ^ 31
      \<and> KEY_TIMEOUT <s millis_inner inp - lastTime s
      \<and> (\<forall>t\<in>set ts. readKey (analogKey (fst t)) = lastKey s) \<longrightarrow>
        mode (state (processKeys inp parameter step s)) = idle
      \<and> saves (processKeys inp parameter step s) = saves s + 1
      \<and> config (processKeys inp parameter step s) = config s
      \<and> mode (state (run_keys ts (processKeys inp parameter step s))) = idle
      \<and> saves (run_keys ts (processKeys inp parameter step s)) = saves s + 1)
   \<and> (readKey (analogKey inp) \<noteq> lastKey s \<longrightarrow>
        lastKey (processKeys inp parameter step s) = readKey (analogKey inp)
      \<and> lastTime (processKeys inp parameter step s) = millis_outer inp
      \<and> mode (state (processKeys inp parameter step s)) =
          (if readKey (analogKey inp) = select
           then (case mode (state s) of idle \<Rightarrow> setLowTemp | setLowTemp \<Rightarrow> setHighTemp
                 | setHighTemp \<Rightarrow> setLowHumid | setLowHumid \<Rightarrow> setHighHumid
                 | setHighHumid \<Rightarrow> idle)
           else mode (state s))
      \<and> saves (processKeys inp parameter step s) =
          (if readKey (analogKey inp) = select \<and> mode (state s) = setHighHumid
           then saves s + 1 else saves s))"
proof (intro conjI impI)
  assume h: "readKey (analogKey inp) = lastKey s
      \<and> mode (state s) \<noteq> idle
      \<and> lastTime s \<noteq> 0 \<and> uint (lastTime s) < 2 ^ 31
      \<and> KEY_TIMEOUT <s millis_inner inp - lastTime s
      \<and> (\<forall>t\<in>set ts. readKey (analogKey (fst t)) = lastKey s)"
  let ?s' = "processKeys inp parameter step s"
  from h have k0: "readKey (analogKey inp) = lastKey s"
    and held: "\<forall>t\<in>set ts. readKey (analogKey (fst t)) = lastKey s"
    by blast+
  from h have pos: "0 <s lastTime s"
    by (intro recorded_time_positive) blast+
  from h pos have c0: "mode (state s) \<noteq> idle \<and> 0 <s lastTime s
      \<and> KEY_TIMEOUT <s millis_inner inp - lastTime s"
    by blast
  have eq: "?s' = toggleModeToIdle (emit EvAnalogRead s)"
    unfolding processKeys_held [OF k0] by (rule if_P [OF c0])
  have m: "mode (state ?s') = idle" and sv: "saves ?s' = saves s + 1"
    and c: "config ?s' = config s" and k: "lastKey ?s' = lastKey s"
    by (simp_all add: eq toggleModeToIdle_def writeConfig_def emit_def saves_def)
  have "run_keys ts ?s' = ?s'\<lparr>trace := trace ?s' @ replicate (length ts) EvAnalogRead\<rparr>"
    using run_keys_held [of ts ?s'] held m k by simp
  then have r: "mode (state (run_keys ts ?s')) = idle" "saves (run_keys ts ?s') = saves s + 1"
    using m sv by (simp_all add: saves_def)
  show "mode (state ?s') = idle" by (rule m)
  show "saves ?s' = saves s + 1" by (rule sv)
  show "config ?s' = config s" by (rule c)
  show "mode (state (run_keys ts ?s')) = idle" by (rule r(1))
  show "saves (run_keys ts ?s') = saves s + 1" by (rule r(2))
next
  assume e: "readKey (analogKey inp) \<noteq> lastKey s"
  let ?s1 = "(emit EvAnalogRead s)\<lparr>lastKey := readKey (analogKey inp), lastTime := millis_outer inp\<rparr>"
  have s1: "mode (state ?s1) = mode (state s)" "saves ?s1 = saves s"
    "lastKey ?s1 = readKey (analogKey inp)" "lastTime ?s1 = millis_outer inp"
    by (simp_all add: emit_def saves_def)
  show "lastKey (processKeys inp parameter step s) = readKey (analogKey inp)"
    using processKeys_records [OF e] by blast
  show "lastTime (processKeys inp parameter step s) = millis_outer inp"
    using processKeys_records [OF e] by blast
  show "mode (state (processKeys inp parameter step s)) =
          (if readKey (analogKey inp) = select
           then (case mode (state s) of idle \<Rightarrow> setLowTemp | setLowTemp \<Rightarrow> setHighTemp
                 | setHighTemp \<Rightarrow> setLowHumid | setLowHumid \<Rightarrow> setHighHumid
                 | setHighHumid \<Rightarrow> idle)
           else mode (state s))"
  proof (cases "readKey (analogKey inp) = select")
    case True
    with e have "processKeys inp parameter step s =
        toggleMode ((emit EvAnalogRead s)\<lparr>lastKey := select, lastTime := millis_outer inp\<rparr>)"
      by (intro processKeys_select_edge) auto
    then show ?thesis
      using True by (simp add: toggleMode_mode emit_def)
  next
    case False
    with e have "\<not> select_edge inp s" "\<not> timeout_fires inp s"
      by (simp_all add: select_edge_def timeout_fires_def)
    from processKeys_other [OF this] False show ?thesis
      by simp
  qed
  show "saves (processKeys inp parameter step s) =
          (if readKey (analogKey inp) = select \<and> mode (state s) = setHighHumid
           then saves s + 1 else saves s)"
  proof (cases "readKey (analogKey inp) = select")
    case True
    with e have eq: "processKeys inp parameter step s =
        toggleMode ((emit EvAnalogRead s)\<lparr>lastKey := select, lastTime := millis_outer inp\<rparr>)"
      by (intro processKeys_select_edge) auto
    show ?thesis
      unfolding eq toggleMode_saves using True by (simp add: saves_def emit_def)
  next
    case False
    with e have "\<not> select_edge inp s" "\<not> timeout_fires inp s"
      by (simp_all add: select_edge_def timeout_fires_def)
    from processKeys_other [OF this] False show ?thesis
      by simp
  qed
qed

theorem idle_timeout_on_held_key_witness:
  "mode (state (processKeys (key_at 1023 31001) (Some Ref_lowTemp) 1
      (keys_sys setLowTemp none 1000))) = idle
   \<and> saves (processKeys (key_at 1023 31001) (Some Ref_lowTemp) 1
      (keys_sys setLowTemp none 1000)) = 1
   \<and> saves (run_keys [(key_at 1023 70000, None, 0), (key_at 1023 200000, None, 0)]
      (processKeys (key_at 1023 31001) (Some Ref_lowTemp) 1 (keys_sys setLowTemp none 1000))) = 1
   \<and> mode (state (processKeys (key_at 100 40000) (Some Ref_lowTemp) 1
      (keys_sys setLowTemp none 1000))) = setLowTemp
   \<and> lastKey (processKeys (key_at 100 40000) (Some Ref_lowTemp) 1
      (keys_sys setLowTemp none 1000)) = up
   \<and> lastTime (processKeys (key_at 100 40000) (Some Ref_lowTemp) 1
      (keys_sys setLowTemp none 1000)) = 40000"
  using
    idle_timeout_on_held_key [of "key_at 1023 31001" "keys_sys setLowTemp none 1000"
      "[(key_at 1023 70000, None, 0), (key_at 1023 200000, None, 0)]" "Some Ref_lowTemp" 1]
    idle_timeout_on_held_key [of "key_at 100 40000" "keys_sys setLowTemp none 1000"
      "[]" "Some Ref_lowTemp" 1]
  by (simp add: fixture_defs readKey_def KEY_TIMEOUT_def word_sless_alt saves_def)

text \<open>
  C6 as stated fails on a tick where the key changes: in setLowTemp, 39000 ms after the
  last change, a press of Up edits the threshold; the mode stays setLowTemp and nothing
  is saved. It also fails for a change recorded at a clock of \<open>2 ^ 31\<close> or more: with Up
  recorded at clock 3000000000 and still read 40000 ms later, the mode stays setLowTemp
  and nothing is saved.
\<close>

theorem idle_timeout_counterexample:
  "mode (state (keys_sys setLowTemp none 1000)) = setLowTemp
   \<and> uint (millis_inner (key_at 100 40000)) - uint (lastTime (keys_sys setLowTemp none 1000))
       = 39000
   \<and> mode (state (processKeys (key_at 100 40000) (Some Ref_lowTemp) 1
        (keys_sys setLowTemp none 1000))) = setLowTemp
   \<and> saves (keys_sys setLowTemp none 1000) = 0
   \<and> saves (processKeys (key_at 100 40000) (Some Ref_lowTemp) 1
        (keys_sys setLowTemp none 1000)) = 0
   \<and> mode (state (keys_sys setLowTemp up 3000000000)) = setLowTemp
   \<and> readKey (analogKey (key_at 100 3000040000)) = lastKey (keys_sys setLowTemp up 3000000000)
   \<and> uint (millis_inner (key_at 100 3000040000))
        - uint (lastTime (keys_sys setLowTemp up 3000000000)) = 40000
   \<and> mode (state (processKeys (key_at 100 3000040000) (Some Ref_lowTemp) 1
        (keys_sys setLowTemp up 3000000000))) = setLowTemp
   \<and> saves (keys_sys setLowTemp up 3000000000) = 0
   \<and> saves (processKeys (key_at 100 3000040000) (Some Ref_lowTemp) 1
        (keys_sys setLowTemp up 3000000000)) = 0"
  by (simp add: fixture_defs machine_defs)

text \<open>
  C9. While \<open>lastTime\<close> is still 0 and every tick reads the remembered key, the
  idle-timeout never fires: whatever the clock reads, the mode and the thresholds stay
  and \<open>writeConfig\<close> is not called.
\<close>

theorem no_timeout_before_first_key:
  assumes "lastTime s = 0"
    and "\<forall>t\<in>set ts. readKey (analogKey (fst t)) = lastKey s"
  shows "count_timeouts ts s = 0
       \<and> mode (state (run_keys ts s)) = mode (state s)
       \<and> saves (run_keys ts s) = saves s
       \<and> config (run_keys ts s) = config s
       \<and> lastTime (run_keys ts s) = 0"
  using run_keys_held [of ts s] assms by (simp add: saves_def)

theorem no_timeout_before_first_key_witness:
  "mode (state (run_keys [(key_at 1023 40000, Some Ref_lowTemp, 1),
        (key_at 1023 4000000, Some Ref_lowTemp, 1)] (keys_sys setLowTemp none 0))) = setLowTemp
   \<and> saves (run_keys [(key_at 1023 40000, Some Ref_lowTemp, 1),
        (key_at 1023 4000000, Some Ref_lowTemp, 1)] (keys_sys setLowTemp none 0)) = 0"
  using no_timeout_before_first_key [of "keys_sys setLowTemp none 0"
      "[(key_at 1023 40000, Some Ref_lowTemp, 1), (key_at 1023 4000000, Some Ref_lowTemp, 1)]"]
  by (simp add: fixture_defs readKey_def saves_def)

section \<open>Editing a threshold\<close>

lemma byte_add_unat: "unat (x + y :: byte) = (unat x + unat y) mod 256"
  by (simp add: unat_word_ariths)

lemma byte_sub_unat: "unat (x - y :: byte) = (unat x + (256 - unat y)) mod 256"
proof -
  have le: "unat y \<le> unat x + 256"
    using unsigned_less [of y, where ?'a = nat] by simp
  have "(of_nat (unat x + 256 - unat y) :: byte) = of_nat (unat x + 256) - of_nat (unat y)"
    using le by (rule of_nat_diff)
  also have "\<dots> = x - y"
    by simp
  finally have "unat (x - y) = unat (of_nat (unat x + 256 - unat y) :: byte)"
    by simp
  also have "\<dots> = (unat x + 256 - unat y) mod 256"
    by (simp add: unat_of_nat)
  also have "unat x + 256 - unat y = unat x + (256 - unat y)"
    using unsigned_less [of y, where ?'a = nat] by simp
  finally show ?thesis .
qed

lemma processKeys_edit:
  assumes "readKey (analogKey inp) \<noteq> lastKey s" "mode (state s) \<noteq> idle"
  shows "readKey (analogKey inp) = up \<Longrightarrow>
           config (processKeys inp (Some p) step s) = config (assign p (deref p s + step) s)"
    and "readKey (analogKey inp) = down \<Longrightarrow>
           config (processKeys inp (Some p) step s) = config (assign p (deref p s - step) s)"
  using assms(2)
  by (cases p; simp add: processKeys_edge [OF assms(1)] Let_def assign_def emit_def)+

lemma loop_edit:
  "mode (state s) = setLowTemp \<Longrightarrow>
     config (loop inp s) = config (processKeys (keys_in inp) (Some Ref_lowTemp) 1 s)"
  "mode (state s) = setHighTemp \<Longrightarrow>
     config (loop inp s) = config (processKeys (keys_in inp) (Some Ref_highTemp) 1 s)"
  "mode (state s) = setLowHumid \<Longrightarrow>
     config (loop inp s) = config (processKeys (keys_in inp) (Some Ref_lowHumid) 5 s)"
  "mode (state s) = setHighHumid \<Longrightarrow>
     config (loop inp s) = config (processKeys (keys_in inp) (Some Ref_highHumid) 5 s)"
  by (simp_all add: loop_def loopSetup_def displaySetup_def emit_def)

text \<open>
  C7. On a tick that reads a key other than the remembered one while the mode is not
  idle and \<open>parameter\<close> is not NULL, Up adds \<open>step\<close> to the threshold pointed to and Down
  subtracts it, modulo 256 and without clamping. \<open>loop\<close> passes the threshold of the mode
  with step 1 for the two temperatures and 5 for the two humidities; the other three
  thresholds stay.
\<close>

theorem edit_adds_step_mod_256:
  assumes "readKey (analogKey (keys_in inp)) \<noteq> lastKey s"
  shows
   "(mode (state s) \<noteq> idle \<and> readKey (analogKey (keys_in inp)) = up \<longrightarrow>
       config (processKeys (keys_in inp) (Some p) step s) = config (assign p (deref p s + step) s)
       \<and> unat (deref p s + step) = (unat (deref p s) + unat step) mod 256)
    \<and> (mode (state s) \<noteq> idle \<and> readKey (analogKey (keys_in inp)) = down \<longrightarrow>
       config (processKeys (keys_in inp) (Some p) step s) = config (assign p (deref p s - step) s)
       \<and> unat (deref p s - step) = (unat (deref p s) + (256 - unat step)) mod 256)
    \<and> (mode (state s) = setLowTemp \<and> readKey (analogKey (keys_in inp)) = up \<longrightarrow>
       config (loop inp s) = (config s)\<lparr>lowTemp := lowTemp (config s) + 1\<rparr>
       \<and> unat (lowTemp (config (loop inp s))) = (unat (lowTemp (config s)) + 1) mod 256)
    \<and> (mode (state s) = setLowTemp \<and> readKey (analogKey (keys_in inp)) = down \<longrightarrow>
       config (loop inp s) = (config s)\<lparr>lowTemp := lowTemp (config s) - 1\<rparr>
       \<and> unat (lowTemp (config (loop inp s))) = (unat (lowTemp (config s)) + 255) mod 256)
    \<and> (mode (state s) = setHighTemp \<and> readKey (analogKey (keys_in inp)) = up \<longrightarrow>
       config (loop inp s) = (config s)\<lparr>highTemp := highTemp (config s) + 1\<rparr>
       \<and> unat (highTemp (config (loop inp s))) = (unat (highTemp (config s)) + 1) mod 256)
    \<and> (mode (state s) = setHighTemp \<and> readKey (analogKey (keys_in inp)) = down \<longrightarrow>
       config (loop inp s) = (config s)\<lparr>highTemp := highTemp (config s) - 1\<rparr>
       \<and> unat (highTemp (config (loop inp s))) = (unat (highTemp (config s)) + 255) mod 256)
    \<and> (mode (state s) = setLowHumid \<and> readKey (analogKey (keys_in inp)) = up \<longrightarrow>
       config (loop inp s) = (config s)\<lparr>lowHumid := lowHumid (config s) + 5\<rparr>
       \<and> unat (lowHumid (config (loop inp s))) = (unat (lowHumid (config s)) + 5) mod 256)
    \<and> (mode (state s) = setLowHumid \<and> readKey (analogKey (keys_in inp)) = down \<longrightarrow>
       config (loop inp s) = (config s)\<lparr>lowHumid := lowHumid (config s) - 5\<rparr>
       \<and> unat (lowHumid (config (loop inp s))) = (unat (lowHumid (config s)) + 251) mod 256)
    \<and> (mode (state s) = setHighHumid \<and> readKey (analogKey (keys_in inp)) = up \<longrightarrow>
       config (loop inp s) = (config s)\<lparr>highHumid := highHumid (config s) + 5\<rparr>
       \<and> unat (highHumid (config (loop inp s))) = (unat (highHumid (config s)) + 5) mod 256)
    \<and> (mode (state s) = setHighHumid \<and> readKey (analogKey (keys_in inp)) = down \<longrightarrow>
       config (loop inp s) = (config s)\<lparr>highHumid := highHumid (config s) - 5\<rparr>
       \<and> unat (highHumid (config (loop inp s))) = (unat (highHumid (config s)) + 251) mod 256)"
proof -
  note e = processKeys_edit [OF assms]
  have lt: "mode (state s) = setLowTemp \<Longrightarrow> mode (state s) \<noteq> idle"
    and ht: "mode (state s) = setHighTemp \<Longrightarrow> mode (state s) \<noteq> idle"
    and lh: "mode (state s) = setLowHumid \<Longrightarrow> mode (state s) \<noteq> idle"
    and hh: "mode (state s) = setHighHumid \<Longrightarrow> mode (state s) \<noteq> idle"
    by simp_all
  have g: "mode (state s) \<noteq> idle \<and> readKey (analogKey (keys_in inp)) = up \<longrightarrow>
       config (processKeys (keys_in inp) (Some p) step s) = config (assign p (deref p s + step) s)
       \<and> unat (deref p s + step) = (unat (deref p s) + unat step) mod 256"
    using e(1) [of p step] by (simp add: byte_add_unat)
  have h: "mode (state s) \<noteq> idle \<and> readKey (analogKey (keys_in inp)) = down \<longrightarrow>
       config (processKeys (keys_in inp) (Some p) step s) = config (assign p (deref p s - step) s)
       \<and> unat (deref p s - step) = (unat (deref p s) + (256 - unat step)) mod 256"
    using e(2) [of p step] by (simp add: byte_sub_unat)
  have r: "(mode (state s) = setLowTemp \<and> readKey (analogKey (keys_in inp)) = up \<longrightarrow>
       config (loop inp s) = (config s)\<lparr>lowTemp := lowTemp (config s) + 1\<rparr>
       \<and> unat (lowTemp (config (loop inp s))) = (unat (lowTemp (config s)) + 1) mod 256)
    \<and> (mode (state s) = setLowTemp \<and> readKey (analogKey (keys_in inp)) = down \<longrightarrow>
       config (loop inp s) = (config s)\<lparr>lowTemp := lowTemp (config s) - 1\<rparr>
       \<and> unat (lowTemp (config (loop inp s))) = (unat (lowTemp (config s)) + 255) mod 256)
    \<and> (mode (state s) = setHighTemp \<and> readKey (analogKey (keys_in inp)) = up \<longrightarrow>
       config (loop inp s) = (config s)\<lparr>highTemp := highTemp (config s) + 1\<rparr>
       \<and> unat (highTemp (config (loop inp s))) = (unat (highTemp (config s)) + 1) mod 256)
    \<and> (mode (state s) = setHighTemp \<and> readKey (analogKey (keys_in inp)) = down \<longrightarrow>
       config (loop inp s) = (config s)\<lparr>highTemp := highTemp (config s) - 1\<rparr>
       \<and> unat (highTemp (config (loop inp s))) = (unat (highTemp (config s)) + 255) mod 256)
    \<and> (mode (state s) = setLowHumid \<and> readKey (analogKey (keys_in inp)) = up \<longrightarrow>
       config (loop inp s) = (config s)\<lparr>lowHumid := lowHumid (config s) + 5\<rparr>
       \<and> unat (lowHumid (config (loop inp s))) = (unat (lowHumid (config s)) + 5) mod 256)
    \<and> (mode (state s) = setLowHumid \<and> readKey (analogKey (keys_in inp)) = down \<longrightarrow>
       config (loop inp s) = (config s)\<lparr>lowHumid := lowHumid (config s) - 5\<rparr>
       \<and> unat (lowHumid (config (loop inp s))) = (unat (lowHumid (config s)) + 251) mod 256)
    \<and> (mode (state s) = setHighHumid \<and> readKey (analogKey (keys_in inp)) = up \<longrightarrow>
       config (loop inp s) = (config s)\<lparr>highHumid := highHumid (config s) + 5\<rparr>
       \<and> unat (highHumid (config (loop inp s))) = (unat (highHumid (config s)) + 5) mod 256)
    \<and> (mode (state s) = setHighHumid \<and> readKey (analogKey (keys_in inp)) = down \<longrightarrow>
       config (loop inp s) = (config s)\<lparr>highHumid := highHumid (config s) - 5\<rparr>
       \<and> unat (highHumid (config (loop inp s))) = (unat (highHumid (config s)) + 251) mod 256)"
    by (intro conjI impI; elim conjE)
       (simp_all add: loop_edit e lt ht lh hh assign_def deref_def byte_add_unat byte_sub_unat)
  show ?thesis
    by (rule conjI [OF g conjI [OF h r]])
qed

theorem edit_adds_step_mod_256_witness:
  "config (loop (loop_at 100 2000 NaN NaN NaN)
      ((keys_sys setLowTemp none 1000)
         \<lparr>config := \<lparr>lowTemp = 255, highTemp = 6, lowHumid = 60, highHumid = 70\<rparr>\<rparr>))
     = \<lparr>lowTemp = 0, highTemp = 6, lowHumid = 60, highHumid = 70\<rparr>
   \<and> config (loop (loop_at 300 2000 NaN NaN NaN)
      ((keys_sys setLowHumid none 1000)
         \<lparr>config := \<lparr>lowTemp = 4, highTemp = 6, lowHumid = 2, highHumid = 70\<rparr>\<rparr>))
     = \<lparr>lowTemp = 4, highTemp = 6, lowHumid = 253, highHumid = 70\<rparr>
   \<and> config (loop (loop_at 100 2000 NaN NaN NaN) (keys_sys setHighHumid none 1000))
     = \<lparr>lowTemp = 4, highTemp = 6, lowHumid = 60, highHumid = 75\<rparr>
   \<and> config (loop (loop_at 300 2000 NaN NaN NaN) (keys_sys setHighTemp none 1000))
     = \<lparr>lowTemp = 4, highTemp = 5, lowHumid = 60, highHumid = 70\<rparr>"
  using
    edit_adds_step_mod_256 [of "loop_at 100 2000 NaN NaN NaN"
      "(keys_sys setLowTemp none 1000)
         \<lparr>config := \<lparr>lowTemp = 255, highTemp = 6, lowHumid = 60, highHumid = 70\<rparr>\<rparr>"]
    edit_adds_step_mod_256 [of "loop_at 300 2000 NaN NaN NaN"
      "(keys_sys setLowHumid none 1000)
         \<lparr>config := \<lparr>lowTemp = 4, highTemp = 6, lowHumid = 2, highHumid = 70\<rparr>\<rparr>"]
    edit_adds_step_mod_256 [of "loop_at 100 2000 NaN NaN NaN" "keys_sys setHighHumid none 1000"]
    edit_adds_step_mod_256 [of "loop_at 300 2000 NaN NaN NaN" "keys_sys setHighTemp none 1000"]
  by (simp add: fixture_defs readKey_def)

section \<open>The idle loop and the sampling period\<close>

lemma sampling_view_append: "sampling_view (xs @ ys) = sampling_view xs @ sampling_view ys"
  by (simp add: sampling_view_def)

lemma toggleMode_frame:
  "temp (state (toggleMode s)) = temp (state s)"
  "humid (state (toggleMode s)) = humid (state s)"
  "outdoorTemp (state (toggleMode s)) = outdoorTemp (state s)"
  "tempOn (state (toggleMode s)) = tempOn (state s)"
  "humidOn (state (toggleMode s)) = humidOn (state s)"
  "lastReadTime (toggleMode s) = lastReadTime s"
  "sampling_view (trace (toggleMode s)) = sampling_view (trace s)"
  by (simp_all add: toggleMode_def toggleModeToIdle_def writeConfig_def emit_def sampling_view_def)

lemma assign_lastReadTime: "lastReadTime (assign p v s) = lastReadTime s"
  by (cases p) (simp_all add: assign_def)

lemma processKeys_frame:
  "temp (state (processKeys inp parameter step s)) = temp (state s)
   \<and> humid (state (processKeys inp parameter step s)) = humid (state s)
   \<and> outdoorTemp (state (processKeys inp parameter step s)) = outdoorTemp (state s)
   \<and> tempOn (state (processKeys inp parameter step s)) = tempOn (state s)
   \<and> humidOn (state (processKeys inp parameter step s)) = humidOn (state s)
   \<and> lastReadTime (processKeys inp parameter step s) = lastReadTime s
   \<and> sampling_view (trace (processKeys inp parameter step s)) =
       sampling_view (trace s) @ [EvAnalogRead]"
proof (cases "readKey (analogKey inp) = lastKey s")
  case True
  show ?thesis
    unfolding processKeys_held [OF True]
    by (simp add: toggleModeToIdle_def writeConfig_def emit_def sampling_view_def)
next
  case False
  let ?s1 = "(emit EvAnalogRead s)\<lparr>lastKey := readKey (analogKey inp), lastTime := millis_outer inp\<rparr>"
  have s1: "state ?s1 = state s" "lastReadTime ?s1 = lastReadTime s"
    "sampling_view (trace ?s1) = sampling_view (trace s) @ [EvAnalogRead]"
    by (simp_all add: emit_def sampling_view_def)
  have "processKeys inp parameter step s = ?s1
      \<or> processKeys inp parameter step s = toggleMode ?s1
      \<or> (\<exists>p v. processKeys inp parameter step s = assign p v ?s1)"
    unfolding processKeys_edge [OF False] Let_def
    by (cases parameter) auto
  then show ?thesis
    using s1 by (auto simp: assign_frame assign_lastReadTime toggleMode_frame)
qed

lemma processKeys_NULL_config: "config (processKeys inp None step s) = config s"
proof (cases "readKey (analogKey inp) = lastKey s")
  case True
  show ?thesis
    unfolding processKeys_held [OF True]
    by (simp add: toggleModeToIdle_def writeConfig_def emit_def)
next
  case False
  show ?thesis
    unfolding processKeys_edge [OF False] Let_def
    by (simp add: toggleMode_config emit_def)
qed

lemma processIU_frame:
  "temp (state (processIU inp s)) = temp (state s)
   \<and> humid (state (processIU inp s)) = humid (state s)
   \<and> outdoorTemp (state (processIU inp s)) = outdoorTemp (state s)
   \<and> tempOn (state (processIU inp s)) = tempOn (state s)
   \<and> humidOn (state (processIU inp s)) = humidOn (state s)
   \<and> lastReadTime (processIU inp s) = lastReadTime s
   \<and> sampling_view (trace (processIU inp s)) =
       sampling_view (trace s) @ [EvDisplayIdle, EvAnalogRead]"
  unfolding processIU_def
  using processKeys_frame [of inp None 0 "displayIdle s"]
  by (simp add: displayIdle_def emit_def sampling_view_def)

lemma processIU_config: "config (processIU inp s) = config s"
  by (simp add: processIU_def processKeys_NULL_config displayIdle_def emit_def)

text \<open>
  What \<open>processKeys\<close> does to the part of the input machine depends on that part only, so
  the screen refreshes and the sensor reads between two polls do not show in it.
\<close>

lemma key_machine_processKeys_cong:
  assumes "key_machine a = key_machine b"
  shows "key_machine (processKeys inp parameter step a)
       = key_machine (processKeys inp parameter step b)"
proof (cases "readKey (analogKey inp) = lastKey a")
  case True
  with assms have Tb: "readKey (analogKey inp) = lastKey b"
    by (simp add: key_machine_def)
  show ?thesis
    using assms unfolding processKeys_held [OF True] processKeys_held [OF Tb]
    by (simp add: key_machine_def toggleModeToIdle_def writeConfig_def emit_def saves_def)
next
  case False
  with assms have Fb: "readKey (analogKey inp) \<noteq> lastKey b"
    by (simp add: key_machine_def)
  from assms have eqs: "mode (state a) = mode (state b)" "config a = config b"
    "saves a = saves b"
    by (simp_all add: key_machine_def)
  have k1: "key_machine ((emit EvAnalogRead a)\<lparr>lastKey := k, lastTime := t\<rparr>)
      = key_machine ((emit EvAnalogRead b)\<lparr>lastKey := k, lastTime := t\<rparr>)" for k t
    using eqs by (simp add: key_machine_def emit_def saves_def)
  have kt: "key_machine (toggleMode ((emit EvAnalogRead a)\<lparr>lastKey := k, lastTime := t\<rparr>))
      = key_machine (toggleMode ((emit EvAnalogRead b)\<lparr>lastKey := k, lastTime := t\<rparr>))" for k t
    using eqs
    by (simp add: key_machine_def toggleMode_def toggleModeToIdle_def writeConfig_def emit_def
        saves_def)
  have ka: "key_machine (assign p v ((emit EvAnalogRead a)\<lparr>lastKey := k, lastTime := t\<rparr>))
      = key_machine (assign p v ((emit EvAnalogRead b)\<lparr>lastKey := k, lastTime := t\<rparr>))"
    for p v k t
    using eqs by (cases p) (simp_all add: key_machine_def assign_def emit_def saves_def)
  have d: "deref p a = deref p b" for p
    using eqs by (cases p) (simp_all add: deref_def)
  show ?thesis
    unfolding processKeys_edge [OF False] processKeys_edge [OF Fb] Let_def
    by (cases parameter) (simp_all add: eqs d k1 kt ka)
qed

lemma key_machine_run_keys_cong:
  assumes "key_machine a = key_machine b"
  shows "key_machine (run_keys ts a) = key_machine (run_keys ts b)"
  using assms
proof (induction ts arbitrary: a b)
  case Nil
  then show ?case by simp
next
  case (Cons t ts)
  obtain inp parameter step where t: "t = (inp, parameter, step)"
    by (cases t) auto
  have "key_machine (processKeys inp parameter step a)
      = key_machine (processKeys inp parameter step b)"
    using Cons.prems by (rule key_machine_processKeys_cong)
  then have "key_machine (run_keys ts (processKeys inp parameter step a))
      = key_machine (run_keys ts (processKeys inp parameter step b))"
    by (rule Cons.IH)
  then show ?case
    by (simp only: t run_keys.simps)
qed

lemma key_machine_processIU:
  assumes "key_machine a = key_machine b"
  shows "key_machine (processIU inp a) = key_machine (processKeys inp None 0 b)"
proof -
  have "key_machine (displayIdle a) = key_machine b"
    using assms by (simp add: key_machine_def displayIdle_def emit_def saves_def)
  then show ?thesis
    unfolding processIU_def by (rule key_machine_processKeys_cong)
qed

lemma processSensors_due:
  assumes "SENSORS_READ_PERIOD <s millis_now inp - lastReadTime s"
  shows "temp (state (processSensors inp s)) = readTemperature inp
       \<and> humid (state (processSensors inp s)) = readHumidity inp
       \<and> outdoorTemp (state (processSensors inp s)) = getTempC inp
       \<and> tempOn (state (processSensors inp s)) = tempOn (state s)
       \<and> humidOn (state (processSensors inp s)) = humidOn (state s)
       \<and> lastReadTime (processSensors inp s) = millis_now inp
       \<and> sampling_view (trace (processSensors inp s)) =
           sampling_view (trace s) @
             [EvReadTemperature, EvDisplayIdle, EvAnalogRead,
              EvReadHumidity, EvDisplayIdle, EvAnalogRead,
              EvRequestTemperatures, EvDisplayIdle, EvAnalogRead,
              EvGetTempC, EvDisplayIdle, EvAnalogRead]
       \<and> key_machine (processSensors inp s) =
           key_machine (run_keys [(iu_after_temp inp, None, 0), (iu_after_humid inp, None, 0),
             (iu_after_request inp, None, 0), (iu_after_outdoor inp, None, 0)] s)"
proof -
  define s1 where "s1 = (emit EvReadTemperature (s\<lparr>lastReadTime := millis_now inp\<rparr>))
      \<lparr>state := (state s)\<lparr>temp := readTemperature inp\<rparr>\<rparr>"
  define s2 where "s2 = processIU (iu_after_temp inp) s1"
  define s3 where "s3 = (emit EvReadHumidity s2)\<lparr>state := (state s2)\<lparr>humid := readHumidity inp\<rparr>\<rparr>"
  define s4 where "s4 = processIU (iu_after_humid inp) s3"
  define s5 where "s5 = emit EvRequestTemperatures s4"
  define s6 where "s6 = processIU (iu_after_request inp) s5"
  define s7 where "s7 = (emit EvGetTempC s6)\<lparr>state := (state s6)\<lparr>outdoorTemp := getTempC inp\<rparr>\<rparr>"
  define s8 where "s8 = processIU (iu_after_outdoor inp) s7"
  have eq: "processSensors inp s = s8"
    using assms
    by (simp add: processSensors_def Let_def s8_def s7_def s6_def s5_def s4_def s3_def s2_def
        s1_def emit_def)
  have f1: "temp (state s1) = readTemperature inp" "humid (state s1) = humid (state s)"
    "outdoorTemp (state s1) = outdoorTemp (state s)" "tempOn (state s1) = tempOn (state s)"
    "humidOn (state s1) = humidOn (state s)" "lastReadTime s1 = millis_now inp"
    "sampling_view (trace s1) = sampling_view (trace s) @ [EvReadTemperature]"
    by (simp_all add: s1_def emit_def sampling_view_def)
  have f2: "temp (state s2) = readTemperature inp"
    "outdoorTemp (state s2) = outdoorTemp (state s)" "tempOn (state s2) = tempOn (state s)"
    "humidOn (state s2) = humidOn (state s)" "lastReadTime s2 = millis_now inp"
    "sampling_view (trace s2) =
       sampling_view (trace s) @ [EvReadTemperature, EvDisplayIdle, EvAnalogRead]"
    using processIU_frame [of "iu_after_temp inp" s1] by (simp_all add: s2_def f1)
  have f3: "temp (state s3) = readTemperature inp" "humid (state s3) = readHumidity inp"
    "outdoorTemp (state s3) = outdoorTemp (state s)" "tempOn (state s3) = tempOn (state s)"
    "humidOn (state s3) = humidOn (state s)" "lastReadTime s3 = millis_now inp"
    "sampling_view (trace s3) =
       sampling_view (trace s) @ [EvReadTemperature, EvDisplayIdle, EvAnalogRead,
         EvReadHumidity]"
    by (simp_all add: s3_def emit_def f2 sampling_view_append) (simp add: sampling_view_def)
  have f4: "temp (state s4) = readTemperature inp" "humid (state s4) = readHumidity inp"
    "outdoorTemp (state s4) = outdoorTemp (state s)" "tempOn (state s4) = tempOn (state s)"
    "humidOn (state s4) = humidOn (state s)" "lastReadTime s4 = millis_now inp"
    "sampling_view (trace s4) =
       sampling_view (trace s) @ [EvReadTemperature, EvDisplayIdle, EvAnalogRead,
         EvReadHumidity, EvDisplayIdle, EvAnalogRead]"
    using processIU_frame [of "iu_after_humid inp" s3] by (simp_all add: s4_def f3)
  have f5: "temp (state s5) = readTemperature inp" "humid (state s5) = readHumidity inp"
    "outdoorTemp (state s5) = outdoorTemp (state s)" "tempOn (state s5) = tempOn (state s)"
    "humidOn (state s5) = humidOn (state s)" "lastReadTime s5 = millis_now inp"
    "sampling_view (trace s5) =
       sampling_view (trace s) @ [EvReadTemperature, EvDisplayIdle, EvAnalogRead,
         EvReadHumidity, EvDisplayIdle, EvAnalogRead, EvRequestTemperatures]"
    by (simp_all add: s5_def emit_def f4 sampling_view_append) (simp add: sampling_view_def)
  have f6: "temp (state s6) = readTemperature inp" "humid (state s6) = readHumidity inp"
    "tempOn (state s6) = tempOn (state s)"
    "humidOn (state s6) = humidOn (state s)" "lastReadTime s6 = millis_now inp"
    "sampling_view (trace s6) =
       sampling_view (trace s) @ [EvReadTemperature, EvDisplayIdle, EvAnalogRead,
         EvReadHumidity, EvDisplayIdle, EvAnalogRead, EvRequestTemperatures, EvDisplayIdle,
         EvAnalogRead]"
    using processIU_frame [of "iu_after_request inp" s5] by (simp_all add: s6_def f5)
  have f7: "temp (state s7) = readTemperature inp" "humid (state s7) = readHumidity inp"
    "outdoorTemp (state s7) = getTempC inp" "tempOn (state s7) = tempOn (state s)"
    "humidOn (state s7) = humidOn (state s)" "lastReadTime s7 = millis_now inp"
    "sampling_view (trace s7) =
       sampling_view (trace s) @ [EvReadTemperature, EvDisplayIdle, EvAnalogRead,
         EvReadHumidity, EvDisplayIdle, EvAnalogRead, EvRequestTemperatures, EvDisplayIdle,
         EvAnalogRead, EvGetTempC]"
    by (simp_all add: s7_def emit_def f6 sampling_view_append) (simp add: sampling_view_def)
  define t1 where "t1 = processKeys (iu_after_temp inp) None 0 s"
  define t2 where "t2 = processKeys (iu_after_humid inp) None 0 t1"
  define t3 where "t3 = processKeys (iu_after_request inp) None 0 t2"
  define t4 where "t4 = processKeys (iu_after_outdoor inp) None 0 t3"
  have run: "run_keys [(iu_after_temp inp, None, 0), (iu_after_humid inp, None, 0),
      (iu_after_request inp, None, 0), (iu_after_outdoor inp, None, 0)] s = t4"
    by (simp add: t4_def t3_def t2_def t1_def)
  have k1: "key_machine s1 = key_machine s"
    by (simp add: s1_def key_machine_def emit_def saves_def)
  have k2: "key_machine s2 = key_machine t1"
    unfolding s2_def t1_def using k1 by (rule key_machine_processIU)
  have k3: "key_machine s3 = key_machine t1"
    using k2 by (simp add: s3_def key_machine_def emit_def saves_def)
  have k4: "key_machine s4 = key_machine t2"
    unfolding s4_def t2_def using k3 by (rule key_machine_processIU)
  have k5: "key_machine s5 = key_machine t2"
    using k4 by (simp add: s5_def key_machine_def emit_def saves_def)
  have k6: "key_machine s6 = key_machine t3"
    unfolding s6_def t3_def using k5 by (rule key_machine_processIU)
  have k7: "key_machine s7 = key_machine t3"
    using k6 by (simp add: s7_def key_machine_def emit_def saves_def)
  have k8: "key_machine s8 = key_machine t4"
    unfolding s8_def t4_def using k7 by (rule key_machine_processIU)
  have frame: "temp (state s8) = readTemperature inp
       \<and> humid (state s8) = readHumidity inp
       \<and> outdoorTemp (state s8) = getTempC inp
       \<and> tempOn (state s8) = tempOn (state s)
       \<and> humidOn (state s8) = humidOn (state s)
       \<and> lastReadTime s8 = millis_now inp
       \<and> sampling_view (trace s8) =
           sampling_view (trace s) @
             [EvReadTemperature, EvDisplayIdle, EvAnalogRead,
              EvReadHumidity, EvDisplayIdle, EvAnalogRead,
              EvRequestTemperatures, EvDisplayIdle, EvAnalogRead,
              EvGetTempC, EvDisplayIdle, EvAnalogRead]"
    unfolding s8_def
    using processIU_frame [of "iu_after_outdoor inp" s7] by (simp add: f7)
  show ?thesis
    unfolding eq run using frame k8 by blast
qed

lemma processSensors_config: "config (processSensors inp s) = config s"
  by (simp add: processSensors_def Let_def processIU_config emit_def)

lemma processSensors_not_due:
  assumes "\<not> SENSORS_READ_PERIOD <s millis_now inp - lastReadTime s"
  shows "processSensors inp s = s"
  using assms by (simp add: processSensors_def)

lemma processClimate_state_cong:
  "state s = state s' \<Longrightarrow> config s = config s' \<Longrightarrow> state (processClimate s) = state (processClimate s')"
  by (simp add: processClimate_def Let_def)

lemma processClimate_idem: "state (processClimate (processClimate s)) = state (processClimate s)"
  by (simp add: processClimate_def Let_def)

lemma processRelays_frame:
  "state (processRelays s) = state s" "config (processRelays s) = config s"
  "lastReadTime (processRelays s) = lastReadTime s"
  "sampling_view (trace (processRelays s)) =
     sampling_view (trace s) @
       [EvDigitalWrite RELAY_TEMP_PIN (boolToDigital (tempOn (state s))),
        EvDigitalWrite RELAY_HUMID_PIN (boolToDigital (humidOn (state s)))]"
  by (simp_all add: processRelays_def emit_def sampling_view_def)

lemma processClimate_keeps:
  "temp (state (processClimate s)) = temp (state s)"
  "humid (state (processClimate s)) = humid (state s)"
  "outdoorTemp (state (processClimate s)) = outdoorTemp (state s)"
  "config (processClimate s) = config s"
  "lastReadTime (processClimate s) = lastReadTime s"
  "trace (processClimate s) = trace s"
  by (simp_all add: processClimate_def Let_def)

lemma processClimate_actuators_cong:
  assumes "temp (state a) = temp (state b)" "humid (state a) = humid (state b)"
    and "outdoorTemp (state a) = outdoorTemp (state b)"
    and "tempOn (state a) = tempOn (state b)" "humidOn (state a) = humidOn (state b)"
    and "config a = config b"
  shows "tempOn (state (processClimate a)) = tempOn (state (processClimate b))
       \<and> humidOn (state (processClimate a)) = humidOn (state (processClimate b))"
  using assms by (simp add: processClimate_def Let_def)

lemma key_machine_processClimate: "key_machine (processClimate s) = key_machine s"
  by (simp add: key_machine_def saves_def processClimate_def Let_def)

lemma key_machine_processRelays: "key_machine (processRelays s) = key_machine s"
  by (simp add: key_machine_def saves_def processRelays_def emit_def)

text \<open>
  C8, as the sketch has it. In one iteration of \<open>loopIdle\<close> the sensors are read, in the
  order temperature, humidity, request, outdoor temperature, with a refresh of the screen
  and a poll of the keys after each step, exactly when the signed difference of the
  clock and \<open>lastReadTime\<close> is above 5000; then the three readings and \<open>lastReadTime\<close>
  are replaced, and the input machine is where five calls of \<open>processKeys\<close> with a NULL
  parameter take it. Otherwise no sensor is read, the readings and \<open>lastReadTime\<close> stay,
  and the input machine is where the one call of \<open>processKeys\<close> takes it. In both cases
  the thresholds stay, the actuator values are those \<open>processClimate\<close> gives for the
  stored readings and the previous actuator values, and the relays are written with
  them.
\<close>

theorem loopIdle_sampling:
  "(if SENSORS_READ_PERIOD <s millis_now (sens_in inp) - lastReadTime s
    then temp (state (loopIdle inp s)) = readTemperature (sens_in inp)
       \<and> humid (state (loopIdle inp s)) = readHumidity (sens_in inp)
       \<and> outdoorTemp (state (loopIdle inp s)) = getTempC (sens_in inp)
       \<and> lastReadTime (loopIdle inp s) = millis_now (sens_in inp)
       \<and> sampling_view (trace (loopIdle inp s)) =
           sampling_view (trace s) @
             [EvDisplayIdle, EvAnalogRead,
              EvReadTemperature, EvDisplayIdle, EvAnalogRead,
              EvReadHumidity, EvDisplayIdle, EvAnalogRead,
              EvRequestTemperatures, EvDisplayIdle, EvAnalogRead,
              EvGetTempC, EvDisplayIdle, EvAnalogRead,
              EvDigitalWrite RELAY_TEMP_PIN (boolToDigital (tempOn (state (loopIdle inp s)))),
              EvDigitalWrite RELAY_HUMID_PIN (boolToDigital (humidOn (state (loopIdle inp s))))]
       \<and> key_machine (loopIdle inp s) = key_machine (run_keys (polls_when_due inp) s)
       \<and> tempOn (state (loopIdle inp s)) =
           tempOn (state (processClimate
             (s\<lparr>state := (state s)\<lparr>temp := readTemperature (sens_in inp),
                  humid := readHumidity (sens_in inp), outdoorTemp := getTempC (sens_in inp)\<rparr>\<rparr>)))
       \<and> humidOn (state (loopIdle inp s)) =
           humidOn (state (processClimate
             (s\<lparr>state := (state s)\<lparr>temp := readTemperature (sens_in inp),
                  humid := readHumidity (sens_in inp), outdoorTemp := getTempC (sens_in inp)\<rparr>\<rparr>)))
    else temp (state (loopIdle inp s)) = temp (state s)
       \<and> humid (state (loopIdle inp s)) = humid (state s)
       \<and> outdoorTemp (state (loopIdle inp s)) = outdoorTemp (state s)
       \<and> lastReadTime (loopIdle inp s) = lastReadTime s
       \<and> sampling_view (trace (loopIdle inp s)) =
           sampling_view (trace s) @
             [EvDisplayIdle, EvAnalogRead,
              EvDigitalWrite RELAY_TEMP_PIN (boolToDigital (tempOn (state (loopIdle inp s)))),
              EvDigitalWrite RELAY_HUMID_PIN (boolToDigital (humidOn (state (loopIdle inp s))))]
       \<and> key_machine (loopIdle inp s) = key_machine (run_keys [(keys_in inp, None, 0)] s)
       \<and> tempOn (state (loopIdle inp s)) = tempOn (state (processClimate s))
       \<and> humidOn (state (loopIdle inp s)) = humidOn (state (processClimate s)))
   \<and> config (loopIdle inp s) = config s
   \<and> state (processClimate (loopIdle inp s)) = state (loopIdle inp s)"
proof -
  let ?a = "processIU (keys_in inp) s"
  let ?b = "processSensors (sens_in inp) ?a"
  let ?c = "processClimate ?b"
  let ?k = "processKeys (keys_in inp) None 0 s"
  have l: "loopIdle inp s = processRelays ?c"
    by (simp add: loopIdle_def)
  have a: "temp (state ?a) = temp (state s)" "humid (state ?a) = humid (state s)"
    "outdoorTemp (state ?a) = outdoorTemp (state s)" "lastReadTime ?a = lastReadTime s"
    "tempOn (state ?a) = tempOn (state s)" "humidOn (state ?a) = humidOn (state s)"
    "sampling_view (trace ?a) = sampling_view (trace s) @ [EvDisplayIdle, EvAnalogRead]"
    using processIU_frame [of "keys_in inp" s] by simp_all
  have ka: "key_machine ?a = key_machine ?k"
    by (rule key_machine_processIU) simp
  have cb: "config ?b = config s"
    by (simp add: processSensors_config processIU_config)
  have cfg: "config (loopIdle inp s) = config s"
    by (simp add: l processRelays_frame processClimate_keeps cb)
  have kl: "key_machine (loopIdle inp s) = key_machine ?b"
    by (simp add: l key_machine_processRelays key_machine_processClimate)
  have act: "tempOn (state (loopIdle inp s)) = tempOn (state ?c)"
    "humidOn (state (loopIdle inp s)) = humidOn (state ?c)"
    by (simp_all add: l processRelays_frame)
  have fp: "state (processClimate (loopIdle inp s)) = state (loopIdle inp s)"
  proof -
    have "state (processClimate (processRelays ?c)) = state (processClimate ?c)"
      by (rule processClimate_state_cong) (simp_all add: processRelays_frame)
    then show ?thesis
      by (simp add: l processClimate_idem processRelays_frame)
  qed
  show ?thesis
  proof (cases "SENSORS_READ_PERIOD <s millis_now (sens_in inp) - lastReadTime s")
    case True
    then have due: "SENSORS_READ_PERIOD <s millis_now (sens_in inp) - lastReadTime ?a"
      by (simp add: a)
    note d = processSensors_due [OF due]
    let ?n = "s\<lparr>state := (state s)\<lparr>temp := readTemperature (sens_in inp),
        humid := readHumidity (sens_in inp), outdoorTemp := getTempC (sens_in inp)\<rparr>\<rparr>"
    have ev: "tempOn (state ?c) = tempOn (state (processClimate ?n))
        \<and> humidOn (state ?c) = humidOn (state (processClimate ?n))"
      using d by (intro processClimate_actuators_cong) (simp_all add: a cb)
    have "key_machine ?b = key_machine (run_keys [(iu_after_temp (sens_in inp), None, 0),
        (iu_after_humid (sens_in inp), None, 0), (iu_after_request (sens_in inp), None, 0),
        (iu_after_outdoor (sens_in inp), None, 0)] ?a)"
      using d by blast
    also have "\<dots> = key_machine (run_keys [(iu_after_temp (sens_in inp), None, 0),
        (iu_after_humid (sens_in inp), None, 0), (iu_after_request (sens_in inp), None, 0),
        (iu_after_outdoor (sens_in inp), None, 0)] ?k)"
      using ka by (rule key_machine_run_keys_cong)
    also have "\<dots> = key_machine (run_keys (polls_when_due inp) s)"
      by (simp add: polls_when_due_def)
    finally have km: "key_machine (loopIdle inp s) = key_machine (run_keys (polls_when_due inp) s)"
      by (simp add: kl)
    have rd: "temp (state (loopIdle inp s)) = readTemperature (sens_in inp)"
      "humid (state (loopIdle inp s)) = readHumidity (sens_in inp)"
      "outdoorTemp (state (loopIdle inp s)) = getTempC (sens_in inp)"
      "lastReadTime (loopIdle inp s) = millis_now (sens_in inp)"
      using d by (simp_all add: l processRelays_frame processClimate_keeps)
    have tr: "sampling_view (trace (loopIdle inp s)) =
           sampling_view (trace s) @
             [EvDisplayIdle, EvAnalogRead,
              EvReadTemperature, EvDisplayIdle, EvAnalogRead,
              EvReadHumidity, EvDisplayIdle, EvAnalogRead,
              EvRequestTemperatures, EvDisplayIdle, EvAnalogRead,
              EvGetTempC, EvDisplayIdle, EvAnalogRead,
              EvDigitalWrite RELAY_TEMP_PIN (boolToDigital (tempOn (state (loopIdle inp s)))),
              EvDigitalWrite RELAY_HUMID_PIN (boolToDigital (humidOn (state (loopIdle inp s))))]"
      using d by (simp add: l processRelays_frame processClimate_keeps a)
    show ?thesis
      using True rd tr km ev act cfg fp by simp
  next
    case False
    then have nd: "\<not> SENSORS_READ_PERIOD <s millis_now (sens_in inp) - lastReadTime ?a"
      by (simp add: a)
    have b: "?b = ?a"
      by (rule processSensors_not_due [OF nd])
    have ev: "tempOn (state ?c) = tempOn (state (processClimate s))
        \<and> humidOn (state ?c) = humidOn (state (processClimate s))"
      unfolding b by (intro processClimate_actuators_cong) (simp_all add: a processIU_config)
    have km: "key_machine (loopIdle inp s) = key_machine (run_keys [(keys_in inp, None, 0)] s)"
      using ka by (simp add: kl b)
    have rd: "temp (state (loopIdle inp s)) = temp (state s)"
      "humid (state (loopIdle inp s)) = humid (state s)"
      "outdoorTemp (state (loopIdle inp s)) = outdoorTemp (state s)"
      "lastReadTime (loopIdle inp s) = lastReadTime s"
      by (simp_all add: l b processRelays_frame processClimate_keeps a)
    have tr: "sampling_view (trace (loopIdle inp s)) =
           sampling_view (trace s) @
             [EvDisplayIdle, EvAnalogRead,
              EvDigitalWrite RELAY_TEMP_PIN (boolToDigital (tempOn (state (loopIdle inp s)))),
              EvDigitalWrite RELAY_HUMID_PIN (boolToDigital (humidOn (state (loopIdle inp s))))]"
      by (simp add: l b processRelays_frame processClimate_keeps a)
    show ?thesis
      using False rd tr km ev act cfg fp by simp
  qed
qed

theorem loopIdle_sampling_witness:
  "temp (state (loopIdle (loop_at 1023 5001 (Finite 21) (Finite 50) (Finite 25))
      (setup_sketch static_init))) = Finite 21
   \<and> humid (state (loopIdle (loop_at 1023 5001 (Finite 21) (Finite 50) (Finite 25))
      (setup_sketch static_init))) = Finite 50
   \<and> outdoorTemp (state (loopIdle (loop_at 1023 5001 (Finite 21) (Finite 50) (Finite 25))
      (setup_sketch static_init))) = Finite 25
   \<and> lastReadTime (loopIdle (loop_at 1023 5001 (Finite 21) (Finite 50) (Finite 25))
      (setup_sketch static_init)) = 5001
   \<and> config (loopIdle (loop_at 1023 5001 (Finite 21) (Finite 50) (Finite 25))
      (setup_sketch static_init)) = \<lparr>lowTemp = 4, highTemp = 6, lowHumid = 60, highHumid = 70\<rparr>
   \<and> temp (state (loopIdle (loop_at 1023 4000 (Finite 21) (Finite 50) (Finite 25))
      (setup_sketch static_init))) = Finite 0
   \<and> lastReadTime (loopIdle (loop_at 1023 4000 (Finite 21) (Finite 50) (Finite 25))
      (setup_sketch static_init)) = 0"
  using
    loopIdle_sampling [of "loop_at 1023 5001 (Finite 21) (Finite 50) (Finite 25)"
      "setup_sketch static_init"]
    loopIdle_sampling [of "loop_at 1023 4000 (Finite 21) (Finite 50) (Finite 25)"
      "setup_sketch static_init"]
  by (simp add: fixture_defs SENSORS_READ_PERIOD_def word_sless_alt)

text \<open>
  C8 as stated fails when exactly 5000 ms have passed: the iteration at clock 5000 after
  start-up refreshes the screen, polls the key and writes the relays, and reads no sensor.
\<close>

lemma loopIdle_at_5000:
  "loopIdle (loop_at 1023 5000 (Finite 21) (Finite 50) (Finite 25)) (setup_sketch static_init)
     = (setup_sketch static_init)
         \<lparr>trace := [EvDigitalWrite 3 HIGH, EvDigitalWrite 2 HIGH, EvDisplayIdle, EvAnalogRead,
                    EvDigitalWrite 3 HIGH, EvDigitalWrite 2 HIGH]\<rparr>"
  by (simp add: loopIdle_def processIU_def displayIdle_def processSensors_def processClimate_def
      isValidTemp_def isValidHumid_def float_of_int_def fixture_defs machine_defs)

theorem loopIdle_sampling_counterexample:
  "uint (millis_now (sens_in (loop_at 1023 5000 (Finite 21) (Finite 50) (Finite 25))))
       - uint (lastReadTime (setup_sketch static_init)) = 5000
   \<and> temp (state (loopIdle (loop_at 1023 5000 (Finite 21) (Finite 50) (Finite 25))
        (setup_sketch static_init))) = Finite 0
   \<and> lastReadTime (loopIdle (loop_at 1023 5000 (Finite 21) (Finite 50) (Finite 25))
        (setup_sketch static_init)) = 0
   \<and> trace (loopIdle (loop_at 1023 5000 (Finite 21) (Finite 50) (Finite 25))
        (setup_sketch static_init))
       = [EvDigitalWrite 3 HIGH, EvDigitalWrite 2 HIGH, EvDisplayIdle, EvAnalogRead,
          EvDigitalWrite 3 HIGH, EvDigitalWrite 2 HIGH]"
  unfolding loopIdle_at_5000 by (simp add: fixture_defs)

end
